theory Spec2Isabelle
  imports Main "HOL-Library.Word"
begin

section \<open>JavaScript values\<close>

text \<open>
  The program is \<^verbatim>\<open>lib/application.js\<close> of Koa: the class \<^verbatim>\<open>Application\<close> with
  \<^verbatim>\<open>use\<close>, \<^verbatim>\<open>callback\<close>, \<^verbatim>\<open>handleRequest\<close>, \<^verbatim>\<open>createContext\<close>, \<^verbatim>\<open>onerror\<close>, and the
  helper \<^verbatim>\<open>respond\<close>. JavaScript is untyped, so the values the code tests with
  \<^verbatim>\<open>typeof\<close>, \<^verbatim>\<open>===\<close> and truthiness are a datatype. Strings are their UTF-8 bytes, so
  that the length of a string is what \<^verbatim>\<open>Buffer.byteLength\<close> counts.

  The numbers of the model are the integers from \<open>-2^53\<close> to \<open>2^53 - 1\<close>, held as a
  54-bit two's complement value and read with \<open>sint\<close>. Each of them is a number of
  JavaScript, and \<^verbatim>\<open>String\<close> and \<^verbatim>\<open>JSON.stringify\<close> print it as its plain decimal digits.
  Other numbers (fractions, \<^verbatim>\<open>NaN\<close>, the infinities, and larger magnitudes, which print
  rounded or with an exponent) are not values of the model. A BigInt is any integer.
\<close>

text \<open>
  A function value: an ordinary (or async) function, a generator function, or the
  wrapper that \<^verbatim>\<open>koa-convert\<close> builds around a generator function.
\<close>

datatype jsfunc = Plain string | Generator string | Converted jsfunc

datatype jsval =
    JUndefined
  | JNull
  | JBool bool
  | JNum "54 word"
  | JBigInt int
  | JStr string
  | JFun jsfunc
  | JArr "jsval list"
  | JObj "(string \<times> jsval) list"

fun typeof :: "jsval \<Rightarrow> string" where
  "typeof JUndefined = ''undefined''"
| "typeof JNull = ''object''"
| "typeof (JBool b) = ''boolean''"
| "typeof (JNum n) = ''number''"
| "typeof (JBigInt n) = ''bigint''"
| "typeof (JStr s) = ''string''"
| "typeof (JFun f) = ''function''"
| "typeof (JArr vs) = ''object''"
| "typeof (JObj kvs) = ''object''"

text \<open>
  \<^verbatim>\<open>a === b\<close> with a primitive boolean or number on the left, the only way the source
  uses it (\<^verbatim>\<open>false === ctx.respond\<close>, \<^verbatim>\<open>404 === err.status\<close>): no conversion, the
  other operand has to be the same primitive.
\<close>

definition strict_eq :: "jsval \<Rightarrow> jsval \<Rightarrow> bool" where
  "strict_eq a b = (a = b)"

text \<open>Truthiness: \<^verbatim>\<open>undefined\<close>, \<^verbatim>\<open>null\<close>, \<^verbatim>\<open>false\<close>, \<^verbatim>\<open>0\<close>, \<^verbatim>\<open>0n\<close> and \<^verbatim>\<open>''\<close> are falsy.\<close>

fun truthy :: "jsval \<Rightarrow> bool" where
  "truthy JUndefined = False"
| "truthy JNull = False"
| "truthy (JBool b) = b"
| "truthy (JNum n) = (n \<noteq> 0)"
| "truthy (JBigInt n) = (n \<noteq> 0)"
| "truthy (JStr s) = (s \<noteq> [])"
| "truthy (JFun f) = True"
| "truthy (JArr vs) = True"
| "truthy (JObj kvs) = True"

subsection \<open>Rendering numbers and strings\<close>

definition digit_char :: "nat \<Rightarrow> char" where
  "digit_char d = ''0123456789abcdef'' ! d"

fun show_nat :: "nat \<Rightarrow> string" where
  "show_nat n =
     (if n < 10 then [digit_char n] else show_nat (n div 10) @ [digit_char (n mod 10)])"

declare show_nat.simps [simp del]

text \<open>\<^verbatim>\<open>String(n)\<close> for an integer \<open>n\<close>.\<close>

definition show_int :: "int \<Rightarrow> string" where
  "show_int n = (if n < 0 then CHR ''-'' # show_nat (nat (- n)) else show_nat (nat n))"

text \<open>\<^verbatim>\<open>Buffer.byteLength(s)\<close> of a string: the number of its UTF-8 bytes.\<close>

definition byteLength :: "string \<Rightarrow> int" where
  "byteLength s = int (length s)"

text \<open>
  The quoting of a string by \<^verbatim>\<open>JSON.stringify\<close>: the double quote and the backslash
  are escaped, the control characters below 0x20 get their short escape or
  \<^verbatim>\<open>\u00XX\<close>, every other byte stands for itself.
\<close>

definition quote_char :: "char \<Rightarrow> string" where
  "quote_char c =
     (if c = CHR 0x22 then [CHR 0x5C, CHR 0x22]
      else if c = CHR 0x5C then [CHR 0x5C, CHR 0x5C]
      else if c = CHR 0x08 then [CHR 0x5C, CHR ''b'']
      else if c = CHR 0x0C then [CHR 0x5C, CHR ''f'']
      else if c = CHR 0x0A then [CHR 0x5C, CHR ''n'']
      else if c = CHR 0x0D then [CHR 0x5C, CHR ''r'']
      else if c = CHR 0x09 then [CHR 0x5C, CHR ''t'']
      else if (of_char c :: nat) < 32
        then [CHR 0x5C, CHR ''u'', CHR ''0'', CHR ''0'',
              digit_char (of_char c div 16), digit_char (of_char c mod 16)]
      else [c])"

definition json_quote :: "string \<Rightarrow> string" where
  "json_quote s = CHR 0x22 # concat (map quote_char s) @ [CHR 0x22]"

fun join_comma :: "string list \<Rightarrow> string" where
  "join_comma [] = []"
| "join_comma [t] = t"
| "join_comma (t # ts) = t @ CHR '','' # join_comma ts"

section \<open>Thrown values\<close>

text \<open>
  What the default error handler looks at in the value it is given: the two tests of
  \<^verbatim>\<open>isNativeError\<close>, the properties \<^verbatim>\<open>status\<close>, \<^verbatim>\<open>expose\<close> and \<^verbatim>\<open>stack\<close>, the result
  of \<^verbatim>\<open>toString()\<close>, and the value as \<^verbatim>\<open>JSON.stringify\<close> sees it (for the \<^verbatim>\<open>%j\<close> of
  \<^verbatim>\<open>util.format\<close>). A thrown primitive is a value that fails both tests.
\<close>

record errinfo =
  tag_is_error :: bool
  instance_of_error :: bool
  err_status :: jsval
  err_expose :: jsval
  err_stack :: jsval
  err_toString :: string
  err_json :: jsval

datatype thrown = TypeError string | PlainError string | Thrown errinfo

text \<open>A call returns or throws; a promise resolves or rejects.\<close>

datatype completion = Returned | Threw thrown

datatype settled = Resolved | Rejected thrown

subsection \<open>\<^verbatim>\<open>JSON.stringify\<close>\<close>

text \<open>
  \<^verbatim>\<open>JSON.stringify(v)\<close> on the values above: \<^verbatim>\<open>undefined\<close> and functions have no JSON
  text (the result is \<^verbatim>\<open>undefined\<close>, here \<open>None\<close>; inside an array they are written
  \<^verbatim>\<open>null\<close>, inside an object the member is left out), a BigInt throws a TypeError.
  An object \<open>JObj kvs\<close> is a plain object, given by its own enumerable properties with
  string keys in the order JavaScript enumerates them (keys that are array indices
  first, ascending, then the others as they were added), each key once; it has no
  \<^verbatim>\<open>toJSON\<close>. A number prints as its decimal digits: see the numbers of the model above.
\<close>

fun serialize :: "jsval \<Rightarrow> thrown + string option"
  and serialize_elems :: "jsval list \<Rightarrow> thrown + string list"
  and serialize_members :: "(string \<times> jsval) list \<Rightarrow> thrown + string list"
where
  "serialize JUndefined = Inr None"
| "serialize JNull = Inr (Some ''null'')"
| "serialize (JBool b) = Inr (Some (if b then ''true'' else ''false''))"
| "serialize (JNum n) = Inr (Some (show_int (sint n)))"
| "serialize (JBigInt n) = Inl (TypeError ''Do not know how to serialize a BigInt'')"
| "serialize (JStr s) = Inr (Some (json_quote s))"
| "serialize (JFun f) = Inr None"
| "serialize (JArr vs) =
     (case serialize_elems vs of
        Inl e \<Rightarrow> Inl e
      | Inr ts \<Rightarrow> Inr (Some (CHR ''['' # join_comma ts @ '']'')))"
| "serialize (JObj kvs) =
     (case serialize_members kvs of
        Inl e \<Rightarrow> Inl e
      | Inr ts \<Rightarrow> Inr (Some (CHR ''{'' # join_comma ts @ ''}'')))"
| "serialize_elems [] = Inr []"
| "serialize_elems (v # vs) =
     (case serialize v of
        Inl e \<Rightarrow> Inl e
      | Inr t \<Rightarrow>
          (case serialize_elems vs of
             Inl e \<Rightarrow> Inl e
           | Inr ts \<Rightarrow> Inr ((case t of None \<Rightarrow> ''null'' | Some x \<Rightarrow> x) # ts)))"
| "serialize_members [] = Inr []"
| "serialize_members ((k, v) # kvs) =
     (case serialize v of
        Inl e \<Rightarrow> Inl e
      | Inr t \<Rightarrow>
          (case serialize_members kvs of
             Inl e \<Rightarrow> Inl e
           | Inr ts \<Rightarrow>
               Inr (case t of None \<Rightarrow> ts | Some x \<Rightarrow> (json_quote k @ CHR '':'' # x) # ts)))"

section \<open>The transport handles and the request context\<close>

text \<open>
  The raw response of the transport: its status code, the \<^verbatim>\<open>headersSent\<close> flag, and, in
  the order they were made, the calls that hand it the output: \<^verbatim>\<open>res.end()\<close>,
  \<^verbatim>\<open>res.end(payload)\<close> and \<^verbatim>\<open>body.pipe(res)\<close>. \<open>finished_listeners\<close> counts the
  callbacks registered with \<^verbatim>\<open>onFinished(res, ...)\<close>. What the transport does with a
  call (sending the headers, closing the connection) is its own and is not modelled.
\<close>

datatype payload = Text string | Bytes string

datatype res_call = End "payload option" | Pipe string

record transport_res =
  statusCode :: int
  headersSent :: bool
  res_calls :: "res_call list"
  finished_listeners :: nat

record transport_req =
  req_method :: string
  httpVersionMajor :: int

text \<open>
  The body of a context is a byte buffer, a stream (named), or any other value:
  \<^verbatim>\<open>null\<close>, \<^verbatim>\<open>undefined\<close>, a string, or something to serialize.
\<close>

datatype bodyval = Buffer string | Stream string | Val jsval

text \<open>
  The context as \<^verbatim>\<open>respond\<close> and \<^verbatim>\<open>handleRequest\<close> see it. Its accessors are defined in
  \<^verbatim>\<open>context.js\<close> and \<^verbatim>\<open>response.js\<close>, which are not among the sources; the fields here
  are what those accessors read and assign: \<open>respond_flag\<close> is \<^verbatim>\<open>ctx.respond\<close>,
  \<open>writable\<close> the truth of \<^verbatim>\<open>ctx.writable\<close>, \<open>message\<close> is \<^verbatim>\<open>ctx.message\<close> (the status's
  human message, empty when there is none), \<open>explicitNullBody\<close> the truth of
  \<^verbatim>\<open>ctx.response._explicitNullBody\<close>, and \<open>response_length\<close> is \<^verbatim>\<open>ctx.response.length\<close>,
  \<open>None\<close> when it is not a whole number.
\<close>

record ctx =
  respond_flag :: jsval
  writable :: bool
  body :: bodyval
  message :: string
  headers :: "string \<rightharpoonup> string"
  explicitNullBody :: bool
  response_length :: "int option"
  res :: transport_res
  req :: transport_req

text \<open>
  Modelled from the spec: the accessor \<^verbatim>\<open>ctx.status\<close> (\<^verbatim>\<open>context.js\<close> and \<^verbatim>\<open>response.js\<close>
  are not among the sources). It is the status of the transport response, where the
  dispatcher sets the default.
\<close>

definition status :: "ctx \<Rightarrow> int" where
  "status c = statusCode (res c)"

text \<open>
  Modelled from the spec: the accessor \<^verbatim>\<open>ctx.method\<close> (\<^verbatim>\<open>context.js\<close>, \<^verbatim>\<open>request.js\<close>),
  the method of the transport request.
\<close>

definition ctx_method :: "ctx \<Rightarrow> string" where
  "ctx_method c = req_method (req c)"

text \<open>
  Modelled from the spec: \<^verbatim>\<open>ctx.response.has(field)\<close> (\<^verbatim>\<open>response.js\<close>), whether the
  response header is set.
\<close>

definition has :: "ctx \<Rightarrow> string \<Rightarrow> bool" where
  "has c field = (headers c field \<noteq> None)"

text \<open>
  Modelled from the spec: \<^verbatim>\<open>ctx.response.remove(field)\<close> (\<^verbatim>\<open>response.js\<close>), which strips
  the response header.
\<close>

definition remove :: "string \<Rightarrow> ctx \<Rightarrow> ctx" where
  "remove field c = c\<lparr>headers := (headers c)(field := None)\<rparr>"

text \<open>
  Modelled from the spec: the assignment \<^verbatim>\<open>ctx.length = n\<close> (\<^verbatim>\<open>response.js\<close>), which sets
  the content length.
\<close>

definition set_length :: "int \<Rightarrow> ctx \<Rightarrow> ctx" where
  "set_length n c = c\<lparr>headers := (headers c)(''Content-Length'' \<mapsto> show_int n)\<rparr>"

text \<open>
  Modelled from the spec: the assignment \<^verbatim>\<open>ctx.type = t\<close> (\<^verbatim>\<open>response.js\<close>), which sets
  the content type.
\<close>

definition set_type :: "string \<Rightarrow> ctx \<Rightarrow> ctx" where
  "set_type t c = c\<lparr>headers := (headers c)(''Content-Type'' \<mapsto> t)\<rparr>"

text \<open>
  Modelled from the spec: the assignment \<^verbatim>\<open>ctx.body = null\<close> (\<^verbatim>\<open>response.js\<close>), which clears
  the body. The comment at the assignment in \<^verbatim>\<open>respond\<close> says it strips headers too;
  which ones is decided in \<^verbatim>\<open>response.js\<close>, and nothing below is about the headers after
  this assignment.
\<close>

definition clear_body :: "ctx \<Rightarrow> ctx" where
  "clear_body c = c\<lparr>body := Val JNull\<rparr>"

text \<open>\<^verbatim>\<open>res.end(payload?)\<close> and \<^verbatim>\<open>body.pipe(res)\<close> on the context's transport response.\<close>

definition res_end :: "payload option \<Rightarrow> ctx \<Rightarrow> ctx" where
  "res_end p c = c\<lparr>res := (res c)\<lparr>res_calls := res_calls (res c) @ [End p]\<rparr>\<rparr>"

definition pipe :: "string \<Rightarrow> ctx \<Rightarrow> ctx" where
  "pipe s c = c\<lparr>res := (res c)\<lparr>res_calls := res_calls (res c) @ [Pipe s]\<rparr>\<rparr>"

text \<open>\<^verbatim>\<open>null == body\<close>: the body is \<^verbatim>\<open>null\<close> or \<^verbatim>\<open>undefined\<close>.\<close>

definition is_nullish :: "bodyval \<Rightarrow> bool" where
  "is_nullish b = (b = Val JNull \<or> b = Val JUndefined)"

section \<open>The response helper \<^verbatim>\<open>respond\<close>\<close>

text \<open>
  \<^verbatim>\<open>respond(ctx)\<close>, branch by branch in the order of the source. The table
  \<^verbatim>\<open>statuses.empty\<close> of the \<^verbatim>\<open>statuses\<close> package is the parameter \<open>statuses_empty\<close>.
  The result is how the call completed and the context after it.
\<close>

definition respond :: "(int \<Rightarrow> bool) \<Rightarrow> ctx \<Rightarrow> completion \<times> ctx" where
  "respond statuses_empty c =
    (if strict_eq (JBool False) (respond_flag c) then (Returned, c)
     else if \<not> writable c then (Returned, c)
     else
      (let code = status c in
       if statuses_empty code then (Returned, res_end None (clear_body c))
       else if ctx_method c = ''HEAD'' then
         (Returned,
          res_end None
            (if \<not> headersSent (res c) \<and> \<not> has c ''Content-Length''
             then (case response_length c of Some n \<Rightarrow> set_length n c | None \<Rightarrow> c)
             else c))
       else if is_nullish (body c) then
         (if explicitNullBody c
          then (Returned,
                res_end None (remove ''Transfer-Encoding'' (remove ''Content-Type'' c)))
          else
            (let b = (if 2 \<le> httpVersionMajor (req c) then show_int code
                      else if message c \<noteq> [] then message c else show_int code)
             in (Returned,
                 res_end (Some (Text b))
                   (if \<not> headersSent (res c)
                    then set_length (byteLength b) (set_type ''text'' c)
                    else c))))
       else
         (case body c of
            Buffer bs \<Rightarrow> (Returned, res_end (Some (Bytes bs)) c)
          | Val (JStr s) \<Rightarrow> (Returned, res_end (Some (Text s)) c)
          | Stream s \<Rightarrow> (Returned, pipe s c)
          | Val v \<Rightarrow>
              (case serialize v of
                 Inl e \<Rightarrow> (Threw e, c)
               | Inr t \<Rightarrow>
                   if \<not> headersSent (res c) then
                     (case t of
                        None \<Rightarrow>
                          (Threw (TypeError ''The string argument must be of type string. Received undefined''), c)
                      | Some s \<Rightarrow>
                          (Returned, res_end (Some (Text s)) (set_length (byteLength s) c)))
                   else (Returned, res_end (map_option Text t) c)))))"

section \<open>The request dispatcher \<^verbatim>\<open>handleRequest\<close>\<close>

text \<open>
  A promise that has settled is its outcome and the state at that moment.
  \<^verbatim>\<open>p.then(f)\<close> runs \<open>f\<close> when \<open>p\<close> resolved, and is rejected when \<open>f\<close> throws;
  \<^verbatim>\<open>p.catch(g)\<close> runs \<open>g\<close> on the reason when \<open>p\<close> was rejected.
\<close>

fun then_p :: "settled \<times> 's \<Rightarrow> ('s \<Rightarrow> completion \<times> 's) \<Rightarrow> settled \<times> 's" where
  "then_p (Resolved, s) f =
     (case f s of (Returned, s') \<Rightarrow> (Resolved, s') | (Threw e, s') \<Rightarrow> (Rejected e, s'))"
| "then_p (Rejected e, s) f = (Rejected e, s)"

fun catch_p :: "settled \<times> 's \<Rightarrow> (thrown \<Rightarrow> 's \<Rightarrow> completion \<times> 's) \<Rightarrow> settled \<times> 's" where
  "catch_p (Resolved, s) g = (Resolved, s)"
| "catch_p (Rejected e, s) g =
     (case g e s of (Returned, s') \<Rightarrow> (Resolved, s') | (Threw e', s') \<Rightarrow> (Rejected e', s'))"

text \<open>
  The invocations of the two callbacks are recorded beside the context, in order:
  \<open>RespondCall\<close> for \<^verbatim>\<open>respond(ctx)\<close>, \<open>OnerrorCall err\<close> for \<^verbatim>\<open>ctx.onerror(err)\<close>.
\<close>

datatype call = RespondCall | OnerrorCall thrown

text \<open>\<^verbatim>\<open>onFinished(res, listener)\<close>: one more listener on the transport response.\<close>

definition onFinished :: "ctx \<Rightarrow> ctx" where
  "onFinished c = c\<lparr>res := (res c)\<lparr>finished_listeners := Suc (finished_listeners (res c))\<rparr>\<rparr>"

text \<open>
  \<^verbatim>\<open>handleRequest(ctx, fnMiddleware)\<close>. \<^verbatim>\<open>ctx.onerror\<close> is defined in \<^verbatim>\<open>context.js\<close>, not
  among the sources: it is the parameter \<open>ctx_onerror\<close>. The listener given to
  \<^verbatim>\<open>onFinished\<close> fires from the transport's events, after this function has returned
  its promise; here it is only registered.
\<close>

definition handleRequest ::
  "(int \<Rightarrow> bool) \<Rightarrow> (thrown \<Rightarrow> ctx \<Rightarrow> completion \<times> ctx) \<Rightarrow> ctx \<Rightarrow>
   (ctx \<Rightarrow> settled \<times> ctx) \<Rightarrow> settled \<times> ctx \<times> call list" where
  "handleRequest statuses_empty ctx_onerror c fnMiddleware =
    (let c1 = c\<lparr>res := (res c)\<lparr>statusCode := 404\<rparr>\<rparr>;
         onerror = (\<lambda>err (x, calls).
            case ctx_onerror err x of (r, x') \<Rightarrow> (r, (x', calls @ [OnerrorCall err])));
         handleResponse = (\<lambda>(x, calls).
            case respond statuses_empty x of (r, x') \<Rightarrow> (r, (x', calls @ [RespondCall])));
         c2 = onFinished c1;
         (p, c3) = fnMiddleware c2
     in catch_p (then_p (p, (c3, [])) handleResponse) onerror)"

section \<open>The middleware composer\<close>

text \<open>
  \<^verbatim>\<open>callback\<close> builds the pipeline with \<^verbatim>\<open>compose(this.middleware)\<close>; \<^verbatim>\<open>compose\<close> comes from
  the package \<^verbatim>\<open>koa-compose\<close>, which is not among the sources, and is modelled from the
  spec's contract of the Middleware Composer.

  The state of one run of the pipeline is the cursor \<open>index\<close> and the context. A
  continuation (\<^verbatim>\<open>next\<close>) runs from a state to a settled promise and the state then; a
  handler \<^verbatim>\<open>(ctx, next) => ...\<close> takes its continuation and does the same. Handlers are
  awaited one inside the other, so one run is sequential.
\<close>

record 'c pipeline_state =
  index :: int
  pctx :: 'c

type_synonym 'c step = "'c pipeline_state \<Rightarrow> settled \<times> 'c pipeline_state"

type_synonym 'c middleware = "'c step \<Rightarrow> 'c step"

text \<open>
  Modelled from the spec: \<^verbatim>\<open>dispatch(i)\<close> of \<^verbatim>\<open>koa-compose\<close>. A second call for an index
  that the cursor has reached fails with the multiple-call error; at the end of the
  list the optional trailing \<^verbatim>\<open>next\<close> runs, or the promise resolves; otherwise handler
  \<open>i\<close> runs with \<^verbatim>\<open>() => dispatch(i + 1)\<close> as its continuation.
\<close>

function dispatch :: "'c middleware list \<Rightarrow> 'c step option \<Rightarrow> nat \<Rightarrow> 'c step" where
  "dispatch mws nxt i =
     (\<lambda>s. if int i \<le> index s
          then (Rejected (PlainError ''next() called multiple times''), s)
          else
            (let s' = s\<lparr>index := int i\<rparr> in
             if i < length mws then (mws ! i) (dispatch mws nxt (Suc i)) s'
             else (case nxt of None \<Rightarrow> (Resolved, s') | Some f \<Rightarrow> f s')))"
  by pat_completeness auto
termination
  by (relation "measure (\<lambda>(mws, nxt, i). length mws - i)") auto

declare dispatch.simps [simp del]

text \<open>
  Modelled from the spec: the composed handler of \<^verbatim>\<open>koa-compose\<close>, \<^verbatim>\<open>composed(ctx, next?)\<close>:
  the cursor starts at \<open>-1\<close> and the outcome is that of \<^verbatim>\<open>dispatch(0)\<close>.
\<close>

definition compose :: "'c middleware list \<Rightarrow> 'c \<Rightarrow> 'c step option \<Rightarrow> settled \<times> 'c" where
  "compose mws c nxt =
     (case dispatch mws nxt 0 \<lparr>index = - 1, pctx = c\<rparr> of (r, s) \<Rightarrow> (r, pctx s))"

subsection \<open>Handlers\<close>

text \<open>
  A handler that awaits its continuation exactly once:
  \<^verbatim>\<open>async (ctx, next) => { pre(ctx); await next(); post(ctx); }\<close>.
  When the continuation rejects, the \<^verbatim>\<open>await\<close> throws and the handler rejects.
\<close>

definition awaits_next :: "('c \<Rightarrow> 'c) \<Rightarrow> ('c \<Rightarrow> 'c) \<Rightarrow> 'c middleware" where
  "awaits_next pre post next =
     (\<lambda>s. case next (s\<lparr>pctx := pre (pctx s)\<rparr>) of
            (Resolved, s2) \<Rightarrow> (Resolved, s2\<lparr>pctx := post (pctx s2)\<rparr>)
          | (Rejected e, s2) \<Rightarrow> (Rejected e, s2))"

text \<open>A handler that never calls its continuation: \<^verbatim>\<open>async (ctx, next) => { effects(ctx); }\<close>.\<close>

definition never_next :: "('c \<Rightarrow> 'c) \<Rightarrow> 'c middleware" where
  "never_next effects next = (\<lambda>s. (Resolved, s\<lparr>pctx := effects (pctx s)\<rparr>))"

text \<open>The handlers of a list of (pre, post) effects, in the order of the list.\<close>

definition onion :: "(('c \<Rightarrow> 'c) \<times> ('c \<Rightarrow> 'c)) list \<Rightarrow> 'c middleware list" where
  "onion hs = map (\<lambda>(pre, post). awaits_next pre post) hs"

text \<open>
  Handler \<open>i\<close> of a pipeline whose context is a log: it writes \<open>Pre i\<close> before it awaits
  its continuation and \<open>Post i\<close> after.
\<close>

datatype event = Pre nat | Post nat

definition logging :: "nat \<Rightarrow> event list middleware" where
  "logging i = awaits_next (\<lambda>t. t @ [Pre i]) (\<lambda>t. t @ [Post i])"

definition loggers ::
  "nat list \<Rightarrow> ((event list \<Rightarrow> event list) \<times> (event list \<Rightarrow> event list)) list" where
  "loggers ns = map (\<lambda>i. ((\<lambda>t. t @ [Pre i]), (\<lambda>t. t @ [Post i]))) ns"

section \<open>The application\<close>

text \<open>
  The fields of \<^verbatim>\<open>Application\<close> that the modelled methods read or assign. The three
  templates \<^verbatim>\<open>this.context\<close>, \<^verbatim>\<open>this.request\<close> and \<^verbatim>\<open>this.response\<close> are objects of the
  store below, held by their addresses.
\<close>

type_synonym addr = nat

record application =
  proxy :: jsval
  subdomainOffset :: int
  env :: string
  middleware :: "jsfunc list"
  context_proto :: addr
  request_proto :: addr
  response_proto :: addr
  silent :: jsval

subsection \<open>\<^verbatim>\<open>use\<close>\<close>

text \<open>
  \<^verbatim>\<open>isGeneratorFunction\<close> (package \<^verbatim>\<open>is-generator-function\<close>) and \<^verbatim>\<open>convert\<close> (package
  \<^verbatim>\<open>koa-convert\<close>): the second wraps a generator function into a new, promise-returning
  function and gives any other function back.
\<close>

fun isGeneratorFunction :: "jsfunc \<Rightarrow> bool" where
  "isGeneratorFunction (Generator name) = True"
| "isGeneratorFunction f = False"

definition convert :: "jsfunc \<Rightarrow> jsfunc" where
  "convert f = (if isGeneratorFunction f then Converted f else f)"

definition deprecation :: string where
  "deprecation = ''Support for generators will be removed in v3. '' @
     ''See the documentation for examples of how to convert old middleware '' @
     ''https://github.com/koajs/koa/blob/master/docs/migration.md''"

text \<open>
  \<^verbatim>\<open>use(fn)\<close>: the result is the TypeError, or the application after the call (the
  method returns \<^verbatim>\<open>this\<close>) with the messages the call handed to \<^verbatim>\<open>deprecate(...)\<close> of the
  package \<^verbatim>\<open>depd\<close>, one for each time that line ran. Whether \<^verbatim>\<open>depd\<close> prints a message is
  its own decision (once for a call site, never when silenced) and is not modelled. The
  \<^verbatim>\<open>debug\<close> line changes nothing of the application and is left out.
\<close>

definition use ::
  "'a application_scheme \<Rightarrow> jsval \<Rightarrow> thrown + ('a application_scheme \<times> string list)" where
  "use this fn =
     (if typeof fn \<noteq> ''function'' then Inl (TypeError ''middleware must be a function!'')
      else
        (case fn of
           JFun f \<Rightarrow>
             (let (f', deprecated) =
                    (if isGeneratorFunction f then (convert f, [deprecation]) else (f, []))
              in Inr (this\<lparr>middleware := middleware this @ [f']\<rparr>, deprecated))
         | _ \<Rightarrow> Inl (TypeError ''middleware must be a function!'')))"

text \<open>Chained calls: \<^verbatim>\<open>app.use(f1).use(f2)...\<close>, stopping at the first throw.\<close>

fun use_chain ::
  "'a application_scheme \<Rightarrow> jsval list \<Rightarrow> thrown + ('a application_scheme \<times> string list)" where
  "use_chain this [] = Inr (this, [])"
| "use_chain this (fn # fns) =
     (case use this fn of
        Inl e \<Rightarrow> Inl e
      | Inr (this', w) \<Rightarrow>
          (case use_chain this' fns of
             Inl e \<Rightarrow> Inl e
           | Inr (this'', ws) \<Rightarrow> Inr (this'', w @ ws)))"

subsection \<open>\<^verbatim>\<open>callback\<close>\<close>

text \<open>
  The pipeline that \<^verbatim>\<open>callback\<close> builds, \<^verbatim>\<open>const fn = compose(this.middleware)\<close>, as
  \<^verbatim>\<open>handleRequest\<close> calls it: \<^verbatim>\<open>fn(ctx)\<close>, with no trailing \<^verbatim>\<open>next\<close>. The registered
  functions are names; \<open>impl\<close> gives each its behaviour as a handler.
\<close>

definition callback_fn ::
  "(jsfunc \<Rightarrow> 'c middleware) \<Rightarrow> 'a application_scheme \<Rightarrow> 'c \<Rightarrow> settled \<times> 'c" where
  "callback_fn impl this c = compose (map impl (middleware this)) c None"

subsection \<open>\<^verbatim>\<open>onerror\<close>\<close>

text \<open>
  \<^verbatim>\<open>msg.replace(/^/gm, '  ')\<close>: two spaces at the start of the text and after every line
  terminator: LF, CR, and U+2028 and U+2029, whose UTF-8 bytes are E2 80 A8 and
  E2 80 A9.
\<close>

fun indent_rest :: "string \<Rightarrow> string" where
  "indent_rest (a # b # c # cs) =
     (if a = CHR 0xE2 \<and> b = CHR 0x80 \<and> (c = CHR 0xA8 \<or> c = CHR 0xA9)
      then a # b # c # CHR '' '' # CHR '' '' # indent_rest cs
      else if a = CHR 0x0A \<or> a = CHR 0x0D
      then a # CHR '' '' # CHR '' '' # indent_rest (b # c # cs)
      else a # indent_rest (b # c # cs))"
| "indent_rest (a # cs) =
     (if a = CHR 0x0A \<or> a = CHR 0x0D
      then a # CHR '' '' # CHR '' '' # indent_rest cs
      else a # indent_rest cs)"
| "indent_rest [] = []"

definition indent :: "string \<Rightarrow> string" where
  "indent msg = CHR '' '' # CHR '' '' # indent_rest msg"

text \<open>
  The \<^verbatim>\<open>%j\<close> of \<^verbatim>\<open>util.format\<close>: the JSON text of the value, \<^verbatim>\<open>undefined\<close> where there
  is none; an error of \<^verbatim>\<open>JSON.stringify\<close> other than a circular structure is thrown on.
\<close>

definition format_j :: "jsval \<Rightarrow> thrown + string" where
  "format_j v =
     (case serialize v of
        Inl e \<Rightarrow> Inl e
      | Inr None \<Rightarrow> Inr ''undefined''
      | Inr (Some t) \<Rightarrow> Inr t)"

text \<open>
  \<^verbatim>\<open>onerror(err)\<close>. The console is the list of the texts given to \<^verbatim>\<open>console.error\<close>.
  A \<^verbatim>\<open>msg\<close> that is not a string has no method \<^verbatim>\<open>replace\<close>: the call throws.
\<close>

definition onerror ::
  "'a application_scheme \<Rightarrow> errinfo \<Rightarrow> string list \<Rightarrow> completion \<times> string list" where
  "onerror this err console =
     (let isNativeError = (tag_is_error err \<or> instance_of_error err) in
      if \<not> isNativeError then
        (case format_j (err_json err) of
           Inl e \<Rightarrow> (Threw e, console)
         | Inr t \<Rightarrow> (Threw (TypeError (''non-error thrown: '' @ t)), console))
      else if strict_eq (JNum 404) (err_status err) \<or> truthy (err_expose err)
        then (Returned, console)
      else if truthy (silent this) then (Returned, console)
      else
        (case (if truthy (err_stack err) then err_stack err else JStr (err_toString err)) of
           JStr msg \<Rightarrow> (Returned, console @ [CHR 0x0A # indent msg @ [CHR 0x0A]])
         | _ \<Rightarrow> (Threw (TypeError ''msg.replace is not a function''), console)))"

text \<open>
  The words of the claim about \<^verbatim>\<open>onerror\<close>. A well-formed error has a string for its
  stack, or none; the text reported is the stack trace, or the string representation
  when the stack is missing or empty.
\<close>

definition well_formed_error :: "errinfo \<Rightarrow> bool" where
  "well_formed_error err = (case err_stack err of JStr s \<Rightarrow> True | v \<Rightarrow> \<not> truthy v)"

definition report_text :: "errinfo \<Rightarrow> string" where
  "report_text err =
     (case err_stack err of
        JStr s \<Rightarrow> (if s = [] then err_toString err else s)
      | _ \<Rightarrow> err_toString err)"

text \<open>Lines joined by LF, and the characters that do not end a line.\<close>

fun join_lines :: "string list \<Rightarrow> string" where
  "join_lines [] = []"
| "join_lines [l] = l"
| "join_lines (l # ls) = l @ CHR 0x0A # join_lines ls"

definition plain_char :: "char \<Rightarrow> bool" where
  "plain_char ch = (ch \<noteq> CHR 0x0A \<and> ch \<noteq> CHR 0x0D \<and> ch \<noteq> CHR 0xE2)"

section \<open>The context factory \<^verbatim>\<open>createContext\<close>\<close>

text \<open>
  \<^verbatim>\<open>createContext\<close> builds objects that refer to each other, so the objects live in a
  store: a list of objects, the address of an object being its position. An object
  has a prototype link and its own data properties; a property holds a reference or a
  primitive. \<open>ObjectPrototype\<close> is the built-in \<^verbatim>\<open>Object.prototype\<close>, whose members are
  not modelled. The properties \<^verbatim>\<open>createContext\<close> assigns are taken to be data
  properties: no template defines a setter for them.
\<close>

datatype hval = Ref addr | Prim jsval

datatype proto = NoProto | ObjectPrototype | Derived addr

record obj =
  proto_of :: proto
  props :: "string \<rightharpoonup> hval"

type_synonym heap = "obj list"

text \<open>\<^verbatim>\<open>Object.create(p)\<close> and the literal \<^verbatim>\<open>{}\<close>: a new object with no property of its own.\<close>

definition object_create :: "proto \<Rightarrow> heap \<Rightarrow> addr \<times> heap" where
  "object_create p h = (length h, h @ [\<lparr>proto_of = p, props = Map.empty\<rparr>])"

fun adjust :: "nat \<Rightarrow> ('a \<Rightarrow> 'a) \<Rightarrow> 'a list \<Rightarrow> 'a list" where
  "adjust n f [] = []"
| "adjust 0 f (x # xs) = f x # xs"
| "adjust (Suc n) f (x # xs) = x # adjust n f xs"

text \<open>The assignment \<^verbatim>\<open>a.k = v\<close>: \<open>k\<close> becomes, or stays, an own property of \<open>a\<close>.\<close>

definition put :: "addr \<Rightarrow> string \<Rightarrow> hval \<Rightarrow> heap \<Rightarrow> heap" where
  "put a k v h = adjust a (\<lambda>ob. ob\<lparr>props := (props ob)(k \<mapsto> v)\<rparr>) h"

text \<open>
  Reading \<^verbatim>\<open>a.k\<close>: the own property, else the prototype's, up the chain;
  \<^verbatim>\<open>undefined\<close> at its end. A chain never visits an object twice, so as many steps as
  the store has objects are enough; \<open>None\<close> is a dangling address or a chain that
  does not end.
\<close>

fun lookup :: "nat \<Rightarrow> heap \<Rightarrow> addr \<Rightarrow> string \<Rightarrow> hval option" where
  "lookup 0 h a k = None"
| "lookup (Suc n) h a k =
     (if a < length h then
        (case props (h ! a) k of
           Some v \<Rightarrow> Some v
         | None \<Rightarrow>
             (case proto_of (h ! a) of
                Derived p \<Rightarrow> lookup n h p k
              | _ \<Rightarrow> Some (Prim JUndefined)))
      else None)"

definition get_prop :: "heap \<Rightarrow> addr \<Rightarrow> string \<Rightarrow> hval option" where
  "get_prop h a k = lookup (length h) h a k"

text \<open>
  \<^verbatim>\<open>createContext(req, res)\<close>, statement by statement; a chained assignment
  \<^verbatim>\<open>a.k = b.k = v\<close> assigns \<open>b.k\<close> first. \<open>self\<close> is the address of the application
  (\<^verbatim>\<open>this\<close>), \<open>req_ref\<close> and \<open>res_ref\<close> are the addresses of the raw request and
  response. The result is the address of the new context and the store after the call.
  Where the read of \<^verbatim>\<open>req.url\<close> has no result (no object at \<open>req_ref\<close>), the call throws,
  as reading a property of \<^verbatim>\<open>undefined\<close> does.
\<close>

definition createContext ::
  "'a application_scheme \<Rightarrow> addr \<Rightarrow> addr \<Rightarrow> addr \<Rightarrow> heap \<Rightarrow> thrown + (addr \<times> heap)" where
  "createContext this self req_ref res_ref h =
     (let (context, h1) = object_create (Derived (context_proto this)) h;
          (request, h2) = object_create (Derived (request_proto this)) h1;
          h3 = put context ''request'' (Ref request) h2;
          (response, h4) = object_create (Derived (response_proto this)) h3;
          h5 = put context ''response'' (Ref response) h4;
          h6 = put context ''app'' (Ref self)
                 (put request ''app'' (Ref self) (put response ''app'' (Ref self) h5));
          h7 = put context ''req'' (Ref req_ref)
                 (put request ''req'' (Ref req_ref) (put response ''req'' (Ref req_ref) h6));
          h8 = put context ''res'' (Ref res_ref)
                 (put request ''res'' (Ref res_ref) (put response ''res'' (Ref res_ref) h7));
          h9 = put request ''ctx'' (Ref context) (put response ''ctx'' (Ref context) h8);
          h10 = put request ''response'' (Ref response) h9;
          h11 = put response ''request'' (Ref request) h10
      in case get_prop h11 req_ref ''url'' of
           None \<Rightarrow> Inl (TypeError ''Cannot read property url'')
         | Some u \<Rightarrow>
             (let h12 = put context ''originalUrl'' u (put request ''originalUrl'' u h11);
                  (state, h13) = object_create ObjectPrototype h12;
                  h14 = put context ''state'' (Ref state) h13
              in Inr (context, h14)))"

text \<open>
  A store is well formed when every prototype link points to an object created
  before the one that holds it, as \<^verbatim>\<open>Object.create\<close> makes them.
\<close>

fun protos_below :: "nat \<Rightarrow> obj list \<Rightarrow> bool" where
  "protos_below a [] = True"
| "protos_below a (ob # obs) =
     ((case proto_of ob of Derived p \<Rightarrow> p < a | _ \<Rightarrow> True) \<and> protos_below (Suc a) obs)"

definition heap_wf :: "heap \<Rightarrow> bool" where
  "heap_wf h = protos_below 0 h"

text \<open>The objects of one request: the context, its request view and its response view.\<close>

definition view_objects :: "heap \<Rightarrow> addr \<Rightarrow> addr set" where
  "view_objects h c =
     {c} \<union> {r. get_prop h c ''request'' = Some (Ref r)}
         \<union> {s. get_prop h c ''response'' = Some (Ref s)}"

text \<open>The objects \<^verbatim>\<open>createContext\<close> leaves at the addresses \<open>n\<close>, \<open>n + 1\<close> and \<open>n + 2\<close>.\<close>

definition context_object ::
  "'a application_scheme \<Rightarrow> addr \<Rightarrow> addr \<Rightarrow> addr \<Rightarrow> hval \<Rightarrow> nat \<Rightarrow> obj" where
  "context_object this self rq rs u n =
     \<lparr>proto_of = Derived (context_proto this),
      props = [''request'' \<mapsto> Ref (Suc n), ''response'' \<mapsto> Ref (Suc (Suc n)),
               ''app'' \<mapsto> Ref self, ''req'' \<mapsto> Ref rq, ''res'' \<mapsto> Ref rs,
               ''originalUrl'' \<mapsto> u, ''state'' \<mapsto> Ref (Suc (Suc (Suc n)))]\<rparr>"

definition request_object ::
  "'a application_scheme \<Rightarrow> addr \<Rightarrow> addr \<Rightarrow> addr \<Rightarrow> hval \<Rightarrow> nat \<Rightarrow> obj" where
  "request_object this self rq rs u n =
     \<lparr>proto_of = Derived (request_proto this),
      props = [''app'' \<mapsto> Ref self, ''req'' \<mapsto> Ref rq, ''res'' \<mapsto> Ref rs,
               ''ctx'' \<mapsto> Ref n, ''response'' \<mapsto> Ref (Suc (Suc n)), ''originalUrl'' \<mapsto> u]\<rparr>"

definition response_object ::
  "'a application_scheme \<Rightarrow> addr \<Rightarrow> addr \<Rightarrow> addr \<Rightarrow> nat \<Rightarrow> obj" where
  "response_object this self rq rs n =
     \<lparr>proto_of = Derived (response_proto this),
      props = [''app'' \<mapsto> Ref self, ''req'' \<mapsto> Ref rq, ''res'' \<mapsto> Ref rs,
               ''ctx'' \<mapsto> Ref n, ''request'' \<mapsto> Ref (Suc n)]\<rparr>"

section \<open>Concrete inputs\<close>

text \<open>
  A store as it is after \<^verbatim>\<open>new Application()\<close> and two connections: the three module
  prototypes (0 to 2), the application's templates derived from them (3 to 5), the
  application (6), and two raw request and response pairs (7, 8 and 9, 10).
\<close>

definition heap1 :: heap where
  "heap1 =
    [\<lparr>proto_of = ObjectPrototype, props = [''inspect'' \<mapsto> Prim (JFun (Plain ''inspect''))]\<rparr>,
     \<lparr>proto_of = ObjectPrototype, props = Map.empty\<rparr>,
     \<lparr>proto_of = ObjectPrototype, props = Map.empty\<rparr>,
     \<lparr>proto_of = Derived 0, props = Map.empty\<rparr>,
     \<lparr>proto_of = Derived 1, props = Map.empty\<rparr>,
     \<lparr>proto_of = Derived 2, props = Map.empty\<rparr>,
     \<lparr>proto_of = ObjectPrototype,
      props = [''context'' \<mapsto> Ref 3, ''request'' \<mapsto> Ref 4, ''response'' \<mapsto> Ref 5]\<rparr>,
     \<lparr>proto_of = ObjectPrototype, props = [''url'' \<mapsto> Prim (JStr ''/a'')]\<rparr>,
     \<lparr>proto_of = ObjectPrototype, props = Map.empty\<rparr>,
     \<lparr>proto_of = ObjectPrototype, props = [''url'' \<mapsto> Prim (JStr ''/b'')]\<rparr>,
     \<lparr>proto_of = ObjectPrototype, props = Map.empty\<rparr>]"

definition app1 :: application where
  "app1 = \<lparr>proxy = JBool False, subdomainOffset = 2, env = ''development'', middleware = [],
           context_proto = 3, request_proto = 4, response_proto = 5, silent = JUndefined\<rparr>"

text \<open>The table \<^verbatim>\<open>statuses.empty\<close> of the \<^verbatim>\<open>statuses\<close> package: 204, 205 and 304.\<close>

definition statuses_table :: "int \<Rightarrow> bool" where
  "statuses_table code = (code = 204 \<or> code = 205 \<or> code = 304)"

text \<open>A writable context of a GET request over HTTP/1, status 200, nothing sent yet.\<close>

definition ctx0 :: ctx where
  "ctx0 =
     \<lparr>respond_flag = JUndefined, writable = True, body = Val JUndefined, message = ''OK'',
      headers = Map.empty, explicitNullBody = False, response_length = None,
      res = \<lparr>statusCode = 200, headersSent = False, res_calls = [], finished_listeners = 0\<rparr>,
      req = \<lparr>req_method = ''GET'', httpVersionMajor = 1\<rparr>\<rparr>"

text \<open>The seven characters \<^verbatim>\<open>{"a":1}\<close>.\<close>

definition json_text_a1 :: string where
  "json_text_a1 = [CHR ''{'', CHR 0x22, CHR ''a'', CHR 0x22, CHR '':'', CHR ''1'', CHR ''}'']"

text \<open>An error with a two-line stack trace.\<close>

definition err0 :: errinfo where
  "err0 = \<lparr>tag_is_error = True, instance_of_error = True, err_status = JUndefined,
           err_expose = JUndefined,
           err_stack = JStr (join_lines [''Error: boom'', ''    at handler (app.js:3:9)'']),
           err_toString = ''Error: boom'', err_json = JObj []\<rparr>"

text \<open>How often a list of recorded calls holds each of the two callbacks.\<close>

definition respond_calls :: "call list \<Rightarrow> nat" where
  "respond_calls calls = length (filter (\<lambda>x. x = RespondCall) calls)"

definition onerror_calls :: "call list \<Rightarrow> nat" where
  "onerror_calls calls = length (filter (\<lambda>x. x \<noteq> RespondCall) calls)"

section \<open>Properties of \<^verbatim>\<open>respond\<close>\<close>

lemma respond_statusCode: "statusCode (res (snd (respond t c))) = statusCode (res c)"
  by (simp add: respond_def Let_def res_end_def pipe_def set_length_def set_type_def remove_def
        clear_body_def
        split: bodyval.splits jsval.splits sum.splits option.splits)

lemma respond_proceeds:
  assumes "respond_flag c \<noteq> JBool False" and "writable c"
  shows "(\<exists>e. respond t c = (Threw e, c)) \<or>
         (\<exists>x. fst (respond t c) = Returned \<and>
              res_calls (res (snd (respond t c))) = res_calls (res c) @ [x])"
  using assms
  by (simp add: respond_def strict_eq_def Let_def res_end_def pipe_def set_length_def
        set_type_def remove_def clear_body_def
        split: bodyval.splits jsval.splits sum.splits option.splits)

subsection \<open>Statuses that allow no body\<close>

text \<open>
  Claim C7 says that for every context whose status is in the no-body class, whatever
  its body, \<^verbatim>\<open>respond\<close> sets the body to \<^verbatim>\<open>null\<close> and ends the response with no payload.
  As stated it fails: \<^verbatim>\<open>respond\<close> first returns when \<^verbatim>\<open>ctx.respond\<close> is \<^verbatim>\<open>false\<close> and when
  the context is not writable. With status 204 and the body \<^verbatim>\<open>'hello'\<close>, on a response
  that is no longer writable, and on a context that has opted out, the body stays and
  the response is not ended.
\<close>

theorem respond_empty_status_counterexample:
  "statuses_table 204 \<and>
   respond statuses_table
     (ctx0\<lparr>writable := False, body := Val (JStr ''hello''),
           res := (res ctx0)\<lparr>statusCode := 204\<rparr>\<rparr>)
   = (Returned, ctx0\<lparr>writable := False, body := Val (JStr ''hello''),
           res := (res ctx0)\<lparr>statusCode := 204\<rparr>\<rparr>) \<and>
   respond statuses_table
     (ctx0\<lparr>respond_flag := JBool False, body := Val (JStr ''hello''),
           res := (res ctx0)\<lparr>statusCode := 204\<rparr>\<rparr>)
   = (Returned, ctx0\<lparr>respond_flag := JBool False, body := Val (JStr ''hello''),
           res := (res ctx0)\<lparr>statusCode := 204\<rparr>\<rparr>) \<and>
   body ctx0 \<noteq> Val (JStr ''hello'') \<and> res_calls (res ctx0) = []"
  by (simp add: respond_def statuses_table_def strict_eq_def ctx0_def)

text \<open>
  Claim C7, amended: for every context that has not opted out (\<^verbatim>\<open>ctx.respond\<close> is not
  \<^verbatim>\<open>false\<close>) and is writable, whose status is in the no-body class of the table, and
  whose body is any value, \<^verbatim>\<open>respond\<close> returns with the body set to \<^verbatim>\<open>null\<close> and one
  \<^verbatim>\<open>res.end()\<close> with no payload added to the calls on the transport response.
\<close>

theorem respond_empty_status:
  assumes "respond_flag c \<noteq> JBool False" and "writable c" and "statuses_empty (status c)"
  shows "fst (respond statuses_empty c) = Returned \<and>
         body (snd (respond statuses_empty c)) = Val JNull \<and>
         res_calls (res (snd (respond statuses_empty c))) = res_calls (res c) @ [End None]"
  using assms by (auto simp: respond_def strict_eq_def res_end_def clear_body_def)

text \<open>Witness for C7: status 204 and the body \<^verbatim>\<open>'hello'\<close> on a writable context.\<close>

theorem respond_empty_status_witness:
  "respond_flag (ctx0\<lparr>body := Val (JStr ''hello''), res := (res ctx0)\<lparr>statusCode := 204\<rparr>\<rparr>)
     \<noteq> JBool False \<and>
   writable (ctx0\<lparr>body := Val (JStr ''hello''), res := (res ctx0)\<lparr>statusCode := 204\<rparr>\<rparr>) \<and>
   statuses_table
     (status (ctx0\<lparr>body := Val (JStr ''hello''), res := (res ctx0)\<lparr>statusCode := 204\<rparr>\<rparr>)) \<and>
   fst (respond statuses_table
     (ctx0\<lparr>body := Val (JStr ''hello''), res := (res ctx0)\<lparr>statusCode := 204\<rparr>\<rparr>)) = Returned \<and>
   body (snd (respond statuses_table
     (ctx0\<lparr>body := Val (JStr ''hello''), res := (res ctx0)\<lparr>statusCode := 204\<rparr>\<rparr>))) = Val JNull \<and>
   res_calls (res (snd (respond statuses_table
     (ctx0\<lparr>body := Val (JStr ''hello''), res := (res ctx0)\<lparr>statusCode := 204\<rparr>\<rparr>)))) = [End None]"
  using respond_empty_status
    [of "ctx0\<lparr>body := Val (JStr ''hello''), res := (res ctx0)\<lparr>statusCode := 204\<rparr>\<rparr>"
        statuses_table]
  by (simp add: ctx0_def statuses_table_def status_def)

subsection \<open>Bodies that are serialized\<close>

text \<open>
  Claim C8 says that for every context with a method other than HEAD and a status
  outside the no-body class, whose body is neither null, a buffer, a string nor a
  stream, \<^verbatim>\<open>respond\<close> writes the JSON text of the body and, with headers unsent, sets the
  content length to its byte length. As stated it fails twice. Not every such body
  has a JSON text: for the body \<^verbatim>\<open>10n\<close> (a BigInt) \<^verbatim>\<open>JSON.stringify\<close> throws, \<^verbatim>\<open>respond\<close>
  throws the TypeError on, and nothing is written or set. And the two guards come
  first: for the body \<^verbatim>\<open>{a:1}\<close> on a response that is no longer writable, nothing is
  written or set either.
\<close>

theorem respond_json_counterexample:
  "ctx_method ctx0 \<noteq> ''HEAD'' \<and> \<not> statuses_table (status ctx0) \<and>
   typeof (JBigInt 10) \<noteq> ''string'' \<and>
   respond statuses_table (ctx0\<lparr>body := Val (JBigInt 10)\<rparr>) =
     (Threw (TypeError ''Do not know how to serialize a BigInt''),
      ctx0\<lparr>body := Val (JBigInt 10)\<rparr>) \<and>
   respond statuses_table (ctx0\<lparr>writable := False, body := Val (JObj [(''a'', JNum 1)])\<rparr>) =
     (Returned, ctx0\<lparr>writable := False, body := Val (JObj [(''a'', JNum 1)])\<rparr>) \<and>
   res_calls (res ctx0) = [] \<and> headers ctx0 ''Content-Length'' = None"
  by (simp add: respond_def statuses_table_def strict_eq_def ctx0_def status_def ctx_method_def
        is_nullish_def)

text \<open>
  Claim C8, amended: for every context that has not opted out and is writable, with a
  method other than HEAD and a status outside the no-body class, whose body is neither
  null or undefined, a buffer, a string nor a stream, and for whose body
  \<^verbatim>\<open>JSON.stringify\<close> gives a text \<open>t\<close>: \<^verbatim>\<open>respond\<close> returns with one \<^verbatim>\<open>res.end(t)\<close> added
  to the calls on the transport response and, when the headers are not yet sent, the
  content length set to the byte length of \<open>t\<close>; nothing else changes.
\<close>

theorem respond_json:
  assumes "respond_flag c \<noteq> JBool False" and "writable c"
    and "\<not> statuses_empty (status c)" and "ctx_method c \<noteq> ''HEAD''"
    and "body c = Val v" and "v \<noteq> JNull" and "v \<noteq> JUndefined" and "typeof v \<noteq> ''string''"
    and "serialize v = Inr (Some t)"
  shows "respond statuses_empty c =
          (Returned,
           c\<lparr>headers := (if headersSent (res c) then headers c
                          else (headers c)(''Content-Length'' \<mapsto> show_int (int (length t)))),
             res := (res c)\<lparr>res_calls := res_calls (res c) @ [End (Some (Text t))]\<rparr>\<rparr>)"
  using assms
  by (cases v)
     (auto simp: respond_def strict_eq_def res_end_def is_nullish_def set_length_def byteLength_def)

text \<open>
  Witness for C8, the instance the claim names: for the body \<^verbatim>\<open>{a:1}\<close> the seven
  characters \<^verbatim>\<open>{"a":1}\<close> are written and the content length is set to 7.
\<close>

theorem respond_json_witness:
  "respond_flag (ctx0\<lparr>body := Val (JObj [(''a'', JNum 1)])\<rparr>) \<noteq> JBool False \<and>
   writable (ctx0\<lparr>body := Val (JObj [(''a'', JNum 1)])\<rparr>) \<and>
   \<not> statuses_table (status (ctx0\<lparr>body := Val (JObj [(''a'', JNum 1)])\<rparr>)) \<and>
   ctx_method (ctx0\<lparr>body := Val (JObj [(''a'', JNum 1)])\<rparr>) \<noteq> ''HEAD'' \<and>
   typeof (JObj [(''a'', JNum 1)]) \<noteq> ''string'' \<and>
   serialize (JObj [(''a'', JNum 1)]) = Inr (Some json_text_a1) \<and>
   respond statuses_table (ctx0\<lparr>body := Val (JObj [(''a'', JNum 1)])\<rparr>) =
     (Returned,
      ctx0\<lparr>body := Val (JObj [(''a'', JNum 1)]),
           headers := [''Content-Length'' \<mapsto> ''7''],
           res := (res ctx0)\<lparr>res_calls := [End (Some (Text json_text_a1))]\<rparr>\<rparr>)"
proof -
  let ?c = "ctx0\<lparr>body := Val (JObj [(''a'', JNum 1)])\<rparr>"
  have s: "serialize (JObj [(''a'', JNum 1)]) = Inr (Some json_text_a1)"
    by (simp add: json_text_a1_def json_quote_def quote_char_def show_int_def show_nat.simps
          digit_char_def)
  have seven: "show_int (int (length json_text_a1)) = ''7''"
    by (simp add: json_text_a1_def show_int_def show_nat.simps digit_char_def)
  have h: "respond_flag ?c \<noteq> JBool False" "writable ?c"
    "\<not> statuses_table (status ?c)" "ctx_method ?c \<noteq> ''HEAD''"
    "body ?c = Val (JObj [(''a'', JNum 1)])"
    "JObj [(''a'', JNum 1)] \<noteq> JNull" "JObj [(''a'', JNum 1)] \<noteq> JUndefined"
    "typeof (JObj [(''a'', JNum 1)]) \<noteq> ''string''"
    by (simp_all add: ctx0_def statuses_table_def status_def ctx_method_def)
  have "respond statuses_table ?c =
     (Returned,
      ctx0\<lparr>body := Val (JObj [(''a'', JNum 1)]),
           headers := [''Content-Length'' \<mapsto> ''7''],
           res := (res ctx0)\<lparr>res_calls := [End (Some (Text json_text_a1))]\<rparr>\<rparr>)"
    unfolding respond_json [of ?c statuses_table, OF h s] seven by (simp add: ctx0_def)
  with h s show ?thesis by simp
qed

subsection \<open>The opt-out\<close>

text \<open>
  Claim C10: the opt-out check of \<^verbatim>\<open>respond\<close> is by strict identity with the boolean
  \<^verbatim>\<open>false\<close>. A value \<open>v\<close> of \<^verbatim>\<open>ctx.respond\<close> makes \<^verbatim>\<open>respond\<close> write nothing and leave the
  context and the transport response untouched, whatever else the context holds,
  exactly when \<open>v\<close> is \<^verbatim>\<open>false\<close>. For any other value (absent, \<^verbatim>\<open>null\<close>, \<^verbatim>\<open>0\<close>, the empty
  string, or truthy) the call goes on to the writability check: a context that is not
  writable is left untouched, and for a writable one \<^verbatim>\<open>respond\<close> hands the transport
  response exactly one \<^verbatim>\<open>end\<close> or \<^verbatim>\<open>pipe\<close>, or throws.
\<close>

theorem respond_opt_out:
  "((\<forall>c. respond_flag c = v \<longrightarrow> respond t c = (Returned, c)) = (v = JBool False)) \<and>
   (respond_flag c \<noteq> JBool False \<and> \<not> writable c \<longrightarrow> respond t c = (Returned, c)) \<and>
   (respond_flag c \<noteq> JBool False \<and> writable c \<longrightarrow>
      (\<exists>e. respond t c = (Threw e, c)) \<or>
      (\<exists>x. fst (respond t c) = Returned \<and>
           res_calls (res (snd (respond t c))) = res_calls (res c) @ [x]))"
proof (intro conjI impI)
  show "(\<forall>c. respond_flag c = v \<longrightarrow> respond t c = (Returned, c)) = (v = JBool False)"
  proof
    assume all: "\<forall>c. respond_flag c = v \<longrightarrow> respond t c = (Returned, c)"
    show "v = JBool False"
    proof (rule ccontr)
      assume nf: "v \<noteq> JBool False"
      let ?c = "ctx0\<lparr>respond_flag := v\<rparr>"
      have same: "respond t ?c = (Returned, ?c)" using all by simp
      have "respond_flag ?c \<noteq> JBool False" "writable ?c" using nf by (simp_all add: ctx0_def)
      from respond_proceeds [OF this, of t] show False by (simp add: same)
    qed
  next
    assume "v = JBool False"
    then show "\<forall>c. respond_flag c = v \<longrightarrow> respond t c = (Returned, c)"
      by (simp add: respond_def strict_eq_def)
  qed
next
  assume "respond_flag c \<noteq> JBool False \<and> \<not> writable c"
  then show "respond t c = (Returned, c)" by (simp add: respond_def)
next
  assume "respond_flag c \<noteq> JBool False \<and> writable c"
  then show "(\<exists>e. respond t c = (Threw e, c)) \<or>
      (\<exists>x. fst (respond t c) = Returned \<and>
           res_calls (res (snd (respond t c))) = res_calls (res c) @ [x])"
    using respond_proceeds [of c t] by blast
qed

text \<open>
  Witness for C10: with \<^verbatim>\<open>ctx.respond = false\<close> nothing happens; with \<^verbatim>\<open>ctx.respond = 0\<close>,
  which is falsy but not \<^verbatim>\<open>false\<close>, a writable context gets its fallback body written,
  and one that is not writable is left as it is.
\<close>

theorem respond_opt_out_witness:
  "respond statuses_table (ctx0\<lparr>respond_flag := JBool False\<rparr>)
     = (Returned, ctx0\<lparr>respond_flag := JBool False\<rparr>) \<and>
   JNum 0 \<noteq> JBool False \<and> writable (ctx0\<lparr>respond_flag := JNum 0\<rparr>) \<and>
   respond statuses_table (ctx0\<lparr>respond_flag := JNum 0\<rparr>)
     = (Returned,
        ctx0\<lparr>respond_flag := JNum 0,
             headers := [''Content-Type'' \<mapsto> ''text'', ''Content-Length'' \<mapsto> ''2''],
             res := (res ctx0)\<lparr>res_calls := [End (Some (Text ''OK''))]\<rparr>\<rparr>) \<and>
   respond statuses_table (ctx0\<lparr>respond_flag := JNum 0, writable := False\<rparr>)
     = (Returned, ctx0\<lparr>respond_flag := JNum 0, writable := False\<rparr>)"
proof -
  have a: "respond statuses_table (ctx0\<lparr>respond_flag := JBool False\<rparr>)
     = (Returned, ctx0\<lparr>respond_flag := JBool False\<rparr>)"
    using respond_opt_out [of "JBool False" statuses_table ctx0] by simp
  have b: "respond statuses_table (ctx0\<lparr>respond_flag := JNum 0, writable := False\<rparr>)
     = (Returned, ctx0\<lparr>respond_flag := JNum 0, writable := False\<rparr>)"
    using respond_opt_out [of JUndefined statuses_table
            "ctx0\<lparr>respond_flag := JNum 0, writable := False\<rparr>"] by simp
  have c: "respond statuses_table (ctx0\<lparr>respond_flag := JNum 0\<rparr>)
     = (Returned,
        ctx0\<lparr>respond_flag := JNum 0,
             headers := [''Content-Type'' \<mapsto> ''text'', ''Content-Length'' \<mapsto> ''2''],
             res := (res ctx0)\<lparr>res_calls := [End (Some (Text ''OK''))]\<rparr>\<rparr>)"
    by (simp add: respond_def statuses_table_def strict_eq_def ctx0_def status_def
          ctx_method_def is_nullish_def res_end_def set_length_def set_type_def byteLength_def
          show_int_def show_nat.simps digit_char_def Let_def)
  from a b c show ?thesis by (simp add: ctx0_def)
qed

section \<open>Properties of \<^verbatim>\<open>handleRequest\<close>\<close>

text \<open>
  Claim C2 says that on the settlement of the pipeline \<^verbatim>\<open>respond\<close> is invoked when it
  resolves and \<^verbatim>\<open>ctx.onerror\<close> when it rejects, each at most once, and never both. As
  stated it fails: the handlers are chained as \<^verbatim>\<open>.then(handleResponse).catch(onerror)\<close>,
  so an error thrown by \<^verbatim>\<open>respond\<close> itself reaches \<^verbatim>\<open>ctx.onerror\<close> too. With a pipeline that
  resolves and the body \<^verbatim>\<open>10n\<close>, \<^verbatim>\<open>respond\<close> is invoked, throws the TypeError of
  \<^verbatim>\<open>JSON.stringify\<close>, and \<^verbatim>\<open>ctx.onerror\<close> is invoked with it: both run for one request.
\<close>

theorem handleRequest_settlement_counterexample:
  "handleRequest statuses_table (\<lambda>err x. (Returned, x)) (ctx0\<lparr>body := Val (JBigInt 10)\<rparr>)
     (\<lambda>x. (Resolved, x))
   = (Resolved,
      ctx0\<lparr>body := Val (JBigInt 10),
           res := (res ctx0)\<lparr>statusCode := 404, finished_listeners := 1\<rparr>\<rparr>,
      [RespondCall, OnerrorCall (TypeError ''Do not know how to serialize a BigInt'')])"
  by (simp add: handleRequest_def onFinished_def respond_def statuses_table_def strict_eq_def
        ctx0_def status_def ctx_method_def is_nullish_def)

text \<open>
  Claim C2, amended: for every request, when the pipeline's promise resolves,
  \<^verbatim>\<open>respond\<close> is invoked, exactly once; when it rejects, \<^verbatim>\<open>ctx.onerror\<close> is invoked with the
  error, exactly once, and \<^verbatim>\<open>respond\<close> is not invoked. Each of the two is invoked at most
  once on the settlement path. \<^verbatim>\<open>ctx.onerror\<close> runs after \<^verbatim>\<open>respond\<close> exactly when \<^verbatim>\<open>respond\<close>
  itself throws, and then with the error \<^verbatim>\<open>respond\<close> threw; whenever \<^verbatim>\<open>respond\<close> returns,
  the two are mutually exclusive. Here \<open>(p, c')\<close> is the settled promise of the pipeline
  and \<open>calls\<close> the invocations \<^verbatim>\<open>handleRequest\<close> made.
\<close>

theorem handleRequest_settlement:
  assumes "fnMiddleware (onFinished (c\<lparr>res := (res c)\<lparr>statusCode := 404\<rparr>\<rparr>)) = (p, c')"
    and "handleRequest t ctx_onerror c fnMiddleware = (q, c'', calls)"
  shows "calls =
           (case p of
              Resolved \<Rightarrow>
                (case fst (respond t c') of
                   Returned \<Rightarrow> [RespondCall]
                 | Threw e \<Rightarrow> [RespondCall, OnerrorCall e])
            | Rejected e \<Rightarrow> [OnerrorCall e]) \<and>
         respond_calls calls \<le> 1 \<and> onerror_calls calls \<le> 1 \<and>
         (respond_calls calls = 1) = (p = Resolved) \<and>
         (onerror_calls calls = 1) =
           ((\<exists>e. p = Rejected e) \<or> (p = Resolved \<and> (\<exists>e. fst (respond t c') = Threw e)))"
proof -
  obtain r x where rx: "respond t c' = (r, x)" by (cases "respond t c'")
  show ?thesis
    using assms rx
    by (cases p; cases r)
       (auto simp: handleRequest_def Let_def respond_calls_def onerror_calls_def
          split: prod.splits completion.splits)
qed

text \<open>
  Witness for C2: a pipeline that rejects with an error; \<^verbatim>\<open>ctx.onerror\<close> is invoked with
  it, once, and \<^verbatim>\<open>respond\<close> is not.
\<close>

theorem handleRequest_settlement_witness:
  "(\<lambda>x. (Rejected (PlainError ''boom''), x))
       (onFinished (ctx0\<lparr>res := (res ctx0)\<lparr>statusCode := 404\<rparr>\<rparr>))
     = (Rejected (PlainError ''boom''),
        onFinished (ctx0\<lparr>res := (res ctx0)\<lparr>statusCode := 404\<rparr>\<rparr>)) \<and>
   handleRequest statuses_table (\<lambda>err x. (Returned, x)) ctx0
       (\<lambda>x. (Rejected (PlainError ''boom''), x))
     = (Resolved, onFinished (ctx0\<lparr>res := (res ctx0)\<lparr>statusCode := 404\<rparr>\<rparr>),
        [OnerrorCall (PlainError ''boom'')]) \<and>
   respond_calls [OnerrorCall (PlainError ''boom'')] = 0 \<and>
   onerror_calls [OnerrorCall (PlainError ''boom'')] = 1"
proof -
  have a: "(\<lambda>x. (Rejected (PlainError ''boom''), x))
       (onFinished (ctx0\<lparr>res := (res ctx0)\<lparr>statusCode := 404\<rparr>\<rparr>))
     = (Rejected (PlainError ''boom''),
        onFinished (ctx0\<lparr>res := (res ctx0)\<lparr>statusCode := 404\<rparr>\<rparr>))"
    by simp
  have b: "handleRequest statuses_table (\<lambda>err x. (Returned, x)) ctx0
       (\<lambda>x. (Rejected (PlainError ''boom''), x))
     = (Resolved, onFinished (ctx0\<lparr>res := (res ctx0)\<lparr>statusCode := 404\<rparr>\<rparr>),
        [OnerrorCall (PlainError ''boom'')])"
    by (simp add: handleRequest_def)
  from handleRequest_settlement [OF a b] a b show ?thesis
    by (simp add: respond_calls_def onerror_calls_def)
qed

text \<open>
  Claim C9: for every connection \<^verbatim>\<open>handleRequest\<close> sets the status code of the transport
  response to 404 before any middleware runs. The pipeline is only ever applied to a
  context whose status code is 404 (what it would do on any other context does not
  matter), and when the pipeline leaves the status alone and \<^verbatim>\<open>respond\<close> is the only
  callback that ran, the response that was written has the status 404.
\<close>

theorem handleRequest_default_status:
  "((\<forall>x. statusCode (res x) = 404 \<longrightarrow> fn x = fn' x) \<longrightarrow>
      handleRequest t oe c fn = handleRequest t oe c fn') \<and>
   ((\<forall>x. statusCode (res (snd (fn x))) = statusCode (res x)) \<and>
    snd (snd (handleRequest t oe c fn)) = [RespondCall] \<longrightarrow>
      status (fst (snd (handleRequest t oe c fn))) = 404)"
proof (intro conjI impI)
  assume "\<forall>x. statusCode (res x) = 404 \<longrightarrow> fn x = fn' x"
  then have "fn (onFinished (c\<lparr>res := (res c)\<lparr>statusCode := 404\<rparr>\<rparr>))
           = fn' (onFinished (c\<lparr>res := (res c)\<lparr>statusCode := 404\<rparr>\<rparr>))"
    by (simp add: onFinished_def)
  then show "handleRequest t oe c fn = handleRequest t oe c fn'"
    by (simp add: handleRequest_def)
next
  let ?c2 = "onFinished (c\<lparr>res := (res c)\<lparr>statusCode := 404\<rparr>\<rparr>)"
  assume a: "(\<forall>x. statusCode (res (snd (fn x))) = statusCode (res x)) \<and>
    snd (snd (handleRequest t oe c fn)) = [RespondCall]"
  obtain p c3 where f: "fn ?c2 = (p, c3)" by (cases "fn ?c2")
  have "statusCode (res (snd (fn ?c2))) = statusCode (res ?c2)" using a by blast
  then have s3: "statusCode (res c3) = 404" using f by (simp add: onFinished_def)
  obtain r c4 where rs: "respond t c3 = (r, c4)" by (cases "respond t c3")
  have s4: "statusCode (res c4) = 404"
    using respond_statusCode [of t c3] rs s3 by simp
  show "status (fst (snd (handleRequest t oe c fn))) = 404"
    using a f rs s4
    by (cases p; cases r)
       (auto simp: handleRequest_def status_def split: prod.splits completion.splits)
qed

text \<open>
  Witness for C9: a pipeline that does nothing on a context with no body; the
  response is the fallback text of status 404.
\<close>

theorem handleRequest_default_status_witness:
  "handleRequest statuses_table (\<lambda>err x. (Returned, x)) (ctx0\<lparr>message := ''Not Found''\<rparr>)
       (\<lambda>x. (Resolved, x))
    = (Resolved,
       ctx0\<lparr>message := ''Not Found'',
            headers := [''Content-Type'' \<mapsto> ''text'', ''Content-Length'' \<mapsto> ''9''],
            res := (res ctx0)\<lparr>statusCode := 404, finished_listeners := 1,
                     res_calls := [End (Some (Text ''Not Found''))]\<rparr>\<rparr>,
       [RespondCall]) \<and>
   status (fst (snd (handleRequest statuses_table (\<lambda>err x. (Returned, x))
       (ctx0\<lparr>message := ''Not Found''\<rparr>) (\<lambda>x. (Resolved, x))))) = 404"
proof -
  have run: "handleRequest statuses_table (\<lambda>err x. (Returned, x))
       (ctx0\<lparr>message := ''Not Found''\<rparr>) (\<lambda>x. (Resolved, x))
    = (Resolved,
       ctx0\<lparr>message := ''Not Found'',
            headers := [''Content-Type'' \<mapsto> ''text'', ''Content-Length'' \<mapsto> ''9''],
            res := (res ctx0)\<lparr>statusCode := 404, finished_listeners := 1,
                     res_calls := [End (Some (Text ''Not Found''))]\<rparr>\<rparr>,
       [RespondCall])"
    by (simp add: handleRequest_def onFinished_def respond_def statuses_table_def strict_eq_def
        ctx0_def status_def ctx_method_def is_nullish_def res_end_def set_length_def
        set_type_def byteLength_def show_int_def show_nat.simps digit_char_def Let_def)
  have "status (fst (snd (handleRequest statuses_table (\<lambda>err x. (Returned, x))
       (ctx0\<lparr>message := ''Not Found''\<rparr>) (\<lambda>x. (Resolved, x))))) = 404"
    using handleRequest_default_status
      [of "\<lambda>x. (Resolved, x)" "\<lambda>x. (Resolved, x)" statuses_table "\<lambda>err x. (Returned, x)"
          "ctx0\<lparr>message := ''Not Found''\<rparr>"]
    by (simp add: run)
  with run show ?thesis by simp
qed

section \<open>The onion order of the composed pipeline\<close>

lemma dispatch_onion_prefix:
  assumes inner: "\<And>s. index s < int (length hs) \<Longrightarrow>
            dispatch (onion hs @ rest) nxt (length hs) s =
              (Resolved, s\<lparr>index := m, pctx := g (pctx s)\<rparr>)"
  shows "i \<le> length hs \<Longrightarrow> index s < int i \<Longrightarrow>
         dispatch (onion hs @ rest) nxt i s =
           (Resolved, s\<lparr>index := m,
                        pctx := fold snd (rev (drop i hs)) (g (fold fst (drop i hs) (pctx s)))\<rparr>)"
proof (induction "length hs - i" arbitrary: i s)
  case 0
  then have "i = length hs" by simp
  with inner [of s] "0.prems" show ?case by simp
next
  case (Suc d)
  then have lt: "i < length hs" by simp
  obtain pre post where h: "hs ! i = (pre, post)" by (cases "hs ! i")
  have nth: "(onion hs @ rest) ! i = awaits_next pre post"
    using lt h by (simp add: onion_def nth_append)
  let ?s1 = "s\<lparr>index := int i, pctx := pre (pctx s)\<rparr>"
  have ih: "dispatch (onion hs @ rest) nxt (Suc i) ?s1 =
     (Resolved, ?s1\<lparr>index := m,
        pctx := fold snd (rev (drop (Suc i) hs)) (g (fold fst (drop (Suc i) hs) (pctx ?s1)))\<rparr>)"
    using Suc.hyps(1) [of "Suc i" ?s1] Suc.hyps(2) lt by simp
  have dr: "drop i hs = (pre, post) # drop (Suc i) hs"
    using lt h by (simp add: Cons_nth_drop_Suc [symmetric])
  have "dispatch (onion hs @ rest) nxt i s =
          awaits_next pre post (dispatch (onion hs @ rest) nxt (Suc i)) (s\<lparr>index := int i\<rparr>)"
    using Suc.prems lt nth by (subst dispatch.simps) (simp add: onion_def)
  also have "\<dots> = (Resolved, s\<lparr>index := m,
        pctx := fold snd (rev (drop i hs)) (g (fold fst (drop i hs) (pctx s)))\<rparr>)"
    by (simp add: awaits_next_def ih dr)
  finally show ?case .
qed

lemma compose_onion:
  "compose (onion hs) c None = (Resolved, fold snd (rev hs) (fold fst hs c))"
proof -
  have inner: "\<And>s. index s < int (length hs) \<Longrightarrow>
      dispatch (onion hs @ []) None (length hs) s
        = (Resolved, s\<lparr>index := int (length hs), pctx := id (pctx s)\<rparr>)"
    by (subst dispatch.simps) (simp add: onion_def)
  have "dispatch (onion hs @ []) None 0 \<lparr>index = - 1, pctx = c\<rparr> =
      (Resolved, \<lparr>index = - 1, pctx = c\<rparr>\<lparr>index := int (length hs),
          pctx := fold snd (rev (drop 0 hs))
                    (id (fold fst (drop 0 hs) (pctx \<lparr>index = - 1, pctx = c\<rparr>)))\<rparr>)"
    by (rule dispatch_onion_prefix [OF inner]) simp_all
  then show ?thesis by (simp add: compose_def)
qed

lemma compose_short_circuit:
  "compose (onion hs @ never_next eff # later) c None =
     (Resolved, fold snd (rev hs) (eff (fold fst hs c)))"
proof -
  have inner: "\<And>s. index s < int (length hs) \<Longrightarrow>
      dispatch (onion hs @ never_next eff # later) None (length hs) s
        = (Resolved, s\<lparr>index := int (length hs), pctx := eff (pctx s)\<rparr>)"
    by (subst dispatch.simps) (simp add: onion_def nth_append never_next_def)
  have "dispatch (onion hs @ never_next eff # later) None 0 \<lparr>index = - 1, pctx = c\<rparr> =
      (Resolved, \<lparr>index = - 1, pctx = c\<rparr>\<lparr>index := int (length hs),
          pctx := fold snd (rev (drop 0 hs))
                    (eff (fold fst (drop 0 hs) (pctx \<lparr>index = - 1, pctx = c\<rparr>)))\<rparr>)"
    by (rule dispatch_onion_prefix [OF inner]) simp_all
  then show ?thesis by (simp add: compose_def)
qed

lemma fold_pre: "fold fst (loggers ns) t = t @ map Pre ns"
  by (induction ns arbitrary: t) (simp_all add: loggers_def)

lemma fold_post: "fold snd (loggers ns) t = t @ map Post ns"
  by (induction ns arbitrary: t) (simp_all add: loggers_def)

lemma rev_loggers: "rev (loggers ns) = loggers (rev ns)"
  by (simp add: loggers_def rev_map)

lemma onion_loggers: "onion (loggers ns) = map logging ns"
  by (simp add: onion_def loggers_def logging_def)

lemma use_chain_plain:
  "\<forall>f \<in> set fs. \<not> isGeneratorFunction f \<Longrightarrow>
   use_chain this (map JFun fs) = Inr (this\<lparr>middleware := middleware this @ fs\<rparr>, [])"
  by (induction fs arbitrary: this) (simp_all add: use_def)

lemma callback_fn_onion:
  "callback_fn (\<lambda>f. awaits_next (pre f) (post f)) (this\<lparr>middleware := fs\<rparr>) c =
     (Resolved, fold post (rev fs) (fold pre fs c))"
proof -
  have "map (\<lambda>f. awaits_next (pre f) (post f)) fs = onion (map (\<lambda>f. (pre f, post f)) fs)"
    by (simp add: onion_def)
  then show ?thesis
    using compose_onion [of "map (\<lambda>f. (pre f, post f)) fs" c]
    by (simp add: callback_fn_def fold_map rev_map comp_def)
qed

text \<open>
  Claim C1: for every ordered list of handlers that each await their continuation
  exactly once, the composed pipeline runs the effects the handlers have before
  \<^verbatim>\<open>next\<close> in the order of registration, \<open>0\<close> to \<open>n - 1\<close>, and then the effects they have
  after \<^verbatim>\<open>next\<close> in the reverse order, \<open>n - 1\<close> to \<open>0\<close>, and resolves. A handler that never
  calls \<^verbatim>\<open>next\<close> keeps every later handler from running, whatever the later handlers
  are, and the handlers before it still unwind in reverse order. The first two
  statements are for any effects on any context; the next two are the same for
  handlers that write \<open>Pre i\<close> and \<open>Post i\<close> to a log; the last says that the order is
  that of registration: functions registered with \<^verbatim>\<open>use\<close>, one after the other, on an
  application with no middleware yet, run in that order in the pipeline of \<^verbatim>\<open>callback\<close>.
\<close>

theorem compose_onion_order:
  "compose (onion hs) c None = (Resolved, fold snd (rev hs) (fold fst hs c)) \<and>
   compose (onion hs @ never_next eff # later) c None =
     (Resolved, fold snd (rev hs) (eff (fold fst hs c))) \<and>
   compose (map logging [0..<n]) [] None =
     (Resolved, map Pre [0..<n] @ map Post (rev [0..<n])) \<and>
   compose (map logging [0..<k] @ never_next (\<lambda>t. t @ [Pre k, Post k]) # others) [] None =
     (Resolved, map Pre [0..<k] @ [Pre k, Post k] @ map Post (rev [0..<k])) \<and>
   (middleware this = [] \<and> (\<forall>f \<in> set fs. \<not> isGeneratorFunction f) \<longrightarrow>
      (\<exists>this'. use_chain this (map JFun fs) = Inr (this', []) \<and>
         callback_fn (\<lambda>f. awaits_next (pre f) (post f)) this' c =
           (Resolved, fold post (rev fs) (fold pre fs c))))"
proof (intro conjI impI)
  show "compose (onion hs) c None = (Resolved, fold snd (rev hs) (fold fst hs c))"
    by (rule compose_onion)
  show "compose (onion hs @ never_next eff # later) c None =
     (Resolved, fold snd (rev hs) (eff (fold fst hs c)))"
    by (rule compose_short_circuit)
  show "compose (map logging [0..<n]) [] None =
     (Resolved, map Pre [0..<n] @ map Post (rev [0..<n]))"
    using compose_onion [of "loggers [0..<n]" "[]"]
    by (simp add: onion_loggers fold_pre fold_post rev_loggers)
  show "compose (map logging [0..<k] @ never_next (\<lambda>t. t @ [Pre k, Post k]) # others) [] None =
     (Resolved, map Pre [0..<k] @ [Pre k, Post k] @ map Post (rev [0..<k]))"
    using compose_short_circuit [of "loggers [0..<k]" "\<lambda>t. t @ [Pre k, Post k]" others "[]"]
    by (simp add: onion_loggers fold_pre fold_post rev_loggers)
next
  assume a: "middleware this = [] \<and> (\<forall>f \<in> set fs. \<not> isGeneratorFunction f)"
  then have "use_chain this (map JFun fs) = Inr (this\<lparr>middleware := fs\<rparr>, [])"
    using use_chain_plain [of fs this] by simp
  then show "\<exists>this'. use_chain this (map JFun fs) = Inr (this', []) \<and>
         callback_fn (\<lambda>f. awaits_next (pre f) (post f)) this' c =
           (Resolved, fold post (rev fs) (fold pre fs c))"
    using callback_fn_onion [where pre = pre and post = post and this = this and fs = fs
        and c = c] by blast
qed

text \<open>
  An instance of C1: three handlers log in the order in, in, in, out, out, out; with
  a second handler that never calls \<^verbatim>\<open>next\<close>, the third does not run; and two functions
  registered on the concrete application run in the order of their registration.
\<close>

theorem compose_onion_order_witness:
  "compose [logging 0, logging 1, logging 2] [] None =
     (Resolved, [Pre 0, Pre 1, Pre 2, Post 2, Post 1, Post 0]) \<and>
   compose [logging 0, never_next (\<lambda>t. t @ [Pre 1, Post 1]), logging 2] [] None =
     (Resolved, [Pre 0, Pre 1, Post 1, Post 0]) \<and>
   middleware app1 = [] \<and> \<not> isGeneratorFunction (Plain ''a'') \<and>
   \<not> isGeneratorFunction (Plain ''b'') \<and>
   (\<exists>this'. use_chain app1 [JFun (Plain ''a''), JFun (Plain ''b'')] = Inr (this', []) \<and>
      callback_fn (\<lambda>f. awaits_next (\<lambda>t. t @ [(f, ''in'')]) (\<lambda>t. t @ [(f, ''out'')])) this' [] =
        (Resolved, [(Plain ''a'', ''in''), (Plain ''b'', ''in''),
                    (Plain ''b'', ''out''), (Plain ''a'', ''out'')]))"
proof -
  have three: "[0..<3] = [0, 1, 2]" and one: "[0..<1] = [0]"
    by (simp_all add: upt_rec)
  have m: "middleware app1 = []" by (simp add: app1_def)
  from compose_onion_order [where hs = "[]" and c = "[]" and eff = id and later = "[]"
      and n = 3 and k = 1 and others = "[logging 2]" and this = app1
      and fs = "[Plain ''a'', Plain ''b'']" and pre = "\<lambda>f t. t @ [(f, ''in'')]"
      and post = "\<lambda>f t. t @ [(f, ''out'')]"]
  show ?thesis unfolding three one using m by auto
qed

section \<open>Properties of \<^verbatim>\<open>use\<close>\<close>

lemma use_middleware:
  "use this fn = Inr (this', w) \<Longrightarrow>
   \<exists>f. this' = this\<lparr>middleware := middleware this @ [f]\<rparr>"
  by (auto simp: use_def Let_def split: if_splits jsval.splits)

lemma use_chain_middleware:
  "use_chain this fns = Inr (this', w) \<Longrightarrow>
   \<exists>added. length added = length fns \<and> this' = this\<lparr>middleware := middleware this @ added\<rparr>"
proof (induction fns arbitrary: this this' w)
  case Nil
  then show ?case by simp
next
  case (Cons fn fns)
  from Cons.prems obtain t1 w1 t2 w2 where
    u: "use this fn = Inr (t1, w1)" and c: "use_chain t1 fns = Inr (t2, w2)" and e: "this' = t2"
    by (auto split: sum.splits prod.splits)
  from use_middleware [OF u] obtain f where f: "t1 = this\<lparr>middleware := middleware this @ [f]\<rparr>"
    by blast
  from Cons.IH [OF c] obtain added where
    a: "length added = length fns" "t2 = t1\<lparr>middleware := middleware t1 @ added\<rparr>" by blast
  show ?case
    by (rule exI [of _ "f # added"]) (simp add: a f e)
qed

text \<open>
  Claim C5 says that \<^verbatim>\<open>use(fn)\<close> throws a TypeError when \<open>fn\<close> is not a function and
  that for every function \<open>fn\<close> it appends \<open>fn\<close> to the middleware list and returns the
  application. As stated it fails for one kind of function: a generator function is
  replaced by \<^verbatim>\<open>convert(fn)\<close> before the push, so the list receives the wrapper, not
  \<open>fn\<close>.
\<close>

theorem use_generator_counterexample:
  "typeof (JFun (Generator ''legacy'')) = ''function'' \<and>
   use app1 (JFun (Generator ''legacy'')) =
     Inr (app1\<lparr>middleware := middleware app1 @ [Converted (Generator ''legacy'')]\<rparr>,
          [deprecation]) \<and>
   Converted (Generator ''legacy'') \<noteq> Generator ''legacy''"
  by (simp add: use_def convert_def)

text \<open>
  Claim C5, amended: \<^verbatim>\<open>use(fn)\<close> throws a TypeError whenever \<open>fn\<close> is not a function. For
  every function that is not a generator function it appends \<open>fn\<close> itself to the end of
  the middleware list; for a generator function it appends the wrapper \<^verbatim>\<open>convert(fn)\<close>
  instead. In both cases it returns the application, with
  nothing but the list changed, so calls can be chained; over any chain of calls the
  list only grows at its end, by one entry for each call, the earlier entries staying
  in place.
\<close>

theorem use_registers:
  "(typeof fn \<noteq> ''function'' \<longrightarrow>
      use this fn = Inl (TypeError ''middleware must be a function!'')) \<and>
   (\<forall>f. fn = JFun f \<and> \<not> isGeneratorFunction f \<longrightarrow>
      use this fn = Inr (this\<lparr>middleware := middleware this @ [f]\<rparr>, [])) \<and>
   (\<forall>f. fn = JFun f \<and> isGeneratorFunction f \<longrightarrow>
      use this fn =
        Inr (this\<lparr>middleware := middleware this @ [convert f]\<rparr>, [deprecation])) \<and>
   (\<forall>this' w. use_chain this fns = Inr (this', w) \<longrightarrow>
      (\<exists>added. length added = length fns \<and>
         this' = this\<lparr>middleware := middleware this @ added\<rparr>))"
proof (intro conjI allI impI)
  assume "typeof fn \<noteq> ''function''"
  then show "use this fn = Inl (TypeError ''middleware must be a function!'')"
    by (simp add: use_def)
next
  fix f assume "fn = JFun f \<and> \<not> isGeneratorFunction f"
  then show "use this fn = Inr (this\<lparr>middleware := middleware this @ [f]\<rparr>, [])"
    by (simp add: use_def)
next
  fix f assume "fn = JFun f \<and> isGeneratorFunction f"
  then show "use this fn =
      Inr (this\<lparr>middleware := middleware this @ [convert f]\<rparr>, [deprecation])"
    by (simp add: use_def)
next
  fix this' w assume "use_chain this fns = Inr (this', w)"
  then show "\<exists>added. length added = length fns \<and>
         this' = this\<lparr>middleware := middleware this @ added\<rparr>"
    by (rule use_chain_middleware)
qed

text \<open>
  Witness for C5: a string is refused, a plain function is appended, and two chained
  calls leave the two functions in the order of the calls.
\<close>

theorem use_registers_witness:
  "typeof (JStr ''nope'') \<noteq> ''function'' \<and>
   use app1 (JStr ''nope'') = Inl (TypeError ''middleware must be a function!'') \<and>
   \<not> isGeneratorFunction (Plain ''logger'') \<and>
   use app1 (JFun (Plain ''logger'')) = Inr (app1\<lparr>middleware := [Plain ''logger'']\<rparr>, []) \<and>
   use_chain app1 [JFun (Plain ''logger''), JFun (Plain ''router'')] =
     Inr (app1\<lparr>middleware := [Plain ''logger'', Plain ''router'']\<rparr>, [])"
proof -
  have a: "typeof (JStr ''nope'') \<noteq> ''function''" by simp
  have b: "\<not> isGeneratorFunction (Plain ''logger'')" by simp
  have m: "middleware app1 = []" by (simp add: app1_def)
  have c: "use_chain app1 [JFun (Plain ''logger''), JFun (Plain ''router'')] =
     Inr (app1\<lparr>middleware := [Plain ''logger'', Plain ''router'']\<rparr>, [])"
    by (simp add: use_def m)
  from use_registers [of "JStr ''nope''" app1]
  have 1: "use app1 (JStr ''nope'') = Inl (TypeError ''middleware must be a function!'')"
    using a by blast
  from use_registers [of "JFun (Plain ''logger'')" app1]
  have 2: "use app1 (JFun (Plain ''logger'')) =
      Inr (app1\<lparr>middleware := middleware app1 @ [Plain ''logger'']\<rparr>, [])"
    using b by blast
  from a b c 1 2 show ?thesis by (simp add: m)
qed

section \<open>Properties of \<^verbatim>\<open>onerror\<close>\<close>

lemma serialize_throws_TypeError:
  "(serialize v = Inl e \<longrightarrow> (\<exists>m. e = TypeError m))"
  "(serialize_elems vs = Inl e \<longrightarrow> (\<exists>m. e = TypeError m))"
  "(serialize_members kvs = Inl e \<longrightarrow> (\<exists>m. e = TypeError m))"
  by (induction v and vs and kvs rule: serialize_serialize_elems_serialize_members.induct)
     (auto split: sum.splits)

lemma format_j_TypeError: "format_j v = Inl e \<Longrightarrow> \<exists>m. e = TypeError m"
  using serialize_throws_TypeError(1) [of v e]
  by (auto simp: format_j_def split: sum.splits option.splits)

lemma indent_rest_plain: "plain_char x \<Longrightarrow> indent_rest (x # ys) = x # indent_rest ys"
  by (cases ys rule: indent_rest.cases) (auto simp: plain_char_def)

lemma indent_rest_newline:
  "indent_rest (CHR 0x0A # ys) = CHR 0x0A # CHR '' '' # CHR '' '' # indent_rest ys"
  by (cases ys rule: indent_rest.cases) auto

lemma indent_rest_line:
  "\<forall>ch \<in> set l. plain_char ch \<Longrightarrow> indent_rest (l @ ys) = l @ indent_rest ys"
  by (induction l) (simp_all add: indent_rest_plain)

lemma indent_lines:
  "\<forall>l \<in> set (l0 # ls). \<forall>ch \<in> set l. plain_char ch \<Longrightarrow>
   indent (join_lines (l0 # ls)) = join_lines (map (\<lambda>l. ''  '' @ l) (l0 # ls))"
proof (induction ls arbitrary: l0)
  case Nil
  then show ?case using indent_rest_line [of l0 "[]"] by (simp add: indent_def)
next
  case (Cons l1 ls)
  have "indent_rest (l0 @ CHR 0x0A # join_lines (l1 # ls))
        = l0 @ CHR 0x0A # indent (join_lines (l1 # ls))"
    using Cons.prems indent_rest_line [of l0] by (simp add: indent_rest_newline indent_def)
  then show ?case using Cons.IH [of l1] Cons.prems by (simp add: indent_def)
qed

text \<open>
  Claim C6: the default error handler, given a value \<open>err\<close>, throws a new TypeError
  when \<open>err\<close> passes neither test of a recognized Error. For a recognized error it
  writes nothing and returns when \<^verbatim>\<open>err.status\<close> is 404 or \<^verbatim>\<open>err.expose\<close> is set, whatever
  the silent flag, and when the application is silent. Otherwise, for a well-formed
  error, it returns after one call of \<^verbatim>\<open>console.error\<close> with the stack trace, or the
  string representation when there is no stack, between two line feeds and indented.
  Indented means: when the text is lines joined by line feeds, every line of it gets
  two spaces in front.
\<close>

theorem onerror_reports:
  "(\<not> tag_is_error err \<and> \<not> instance_of_error err \<longrightarrow>
      (\<exists>m. onerror this err console = (Threw (TypeError m), console))) \<and>
   ((tag_is_error err \<or> instance_of_error err) \<and>
    (err_status err = JNum 404 \<or> truthy (err_expose err)) \<longrightarrow>
      onerror this err console = (Returned, console)) \<and>
   ((tag_is_error err \<or> instance_of_error err) \<and> truthy (silent this) \<longrightarrow>
      onerror this err console = (Returned, console)) \<and>
   ((tag_is_error err \<or> instance_of_error err) \<and> err_status err \<noteq> JNum 404 \<and>
    \<not> truthy (err_expose err) \<and> \<not> truthy (silent this) \<and> well_formed_error err \<longrightarrow>
      onerror this err console =
        (Returned, console @ [CHR 0x0A # indent (report_text err) @ [CHR 0x0A]])) \<and>
   ((\<forall>l \<in> set (l0 # ls). \<forall>ch \<in> set l. plain_char ch) \<longrightarrow>
      indent (join_lines (l0 # ls)) = join_lines (map (\<lambda>l. ''  '' @ l) (l0 # ls)))"
proof (intro conjI impI)
  assume "\<not> tag_is_error err \<and> \<not> instance_of_error err"
  then show "\<exists>m. onerror this err console = (Threw (TypeError m), console)"
    using format_j_TypeError [of "err_json err"]
    by (cases "format_j (err_json err)") (auto simp: onerror_def)
next
  assume "(tag_is_error err \<or> instance_of_error err) \<and>
    (err_status err = JNum 404 \<or> truthy (err_expose err))"
  then show "onerror this err console = (Returned, console)"
    by (auto simp: onerror_def strict_eq_def)
next
  assume "(tag_is_error err \<or> instance_of_error err) \<and> truthy (silent this)"
  then show "onerror this err console = (Returned, console)"
    by (auto simp: onerror_def)
next
  assume "(tag_is_error err \<or> instance_of_error err) \<and> err_status err \<noteq> JNum 404 \<and>
    \<not> truthy (err_expose err) \<and> \<not> truthy (silent this) \<and> well_formed_error err"
  then show "onerror this err console =
        (Returned, console @ [CHR 0x0A # indent (report_text err) @ [CHR 0x0A]])"
    by (cases "err_stack err")
       (auto simp: onerror_def strict_eq_def well_formed_error_def report_text_def)
next
  assume "\<forall>l \<in> set (l0 # ls). \<forall>ch \<in> set l. plain_char ch"
  then show "indent (join_lines (l0 # ls)) = join_lines (map (\<lambda>l. ''  '' @ l) (l0 # ls))"
    by (rule indent_lines)
qed

text \<open>
  Witness for C6: an error with a two-line stack and no status, on an application
  that is not silent; both lines are written with two more spaces in front.
\<close>

theorem onerror_reports_witness:
  "(tag_is_error err0 \<or> instance_of_error err0) \<and> err_status err0 \<noteq> JNum 404 \<and>
   \<not> truthy (err_expose err0) \<and> \<not> truthy (silent app1) \<and> well_formed_error err0 \<and>
   onerror app1 err0 [] =
     (Returned,
      [CHR 0x0A # join_lines [''  Error: boom'', ''      at handler (app.js:3:9)'']
         @ [CHR 0x0A]])"
proof -
  have h: "(tag_is_error err0 \<or> instance_of_error err0) \<and> err_status err0 \<noteq> JNum 404 \<and>
   \<not> truthy (err_expose err0) \<and> \<not> truthy (silent app1) \<and> well_formed_error err0"
    by (simp add: err0_def app1_def well_formed_error_def)
  have pl: "\<forall>l \<in> set [''Error: boom'', ''    at handler (app.js:3:9)''].
              \<forall>ch \<in> set l. plain_char ch"
    by (simp add: plain_char_def)
  have rt: "report_text err0 = join_lines [''Error: boom'', ''    at handler (app.js:3:9)'']"
    by (simp add: report_text_def err0_def)
  from onerror_reports [of err0 app1 "[]" "''Error: boom''" "[''    at handler (app.js:3:9)'']"]
  have "onerror app1 err0 [] =
        (Returned, [] @ [CHR 0x0A # indent (report_text err0) @ [CHR 0x0A]])"
    and "indent (join_lines [''Error: boom'', ''    at handler (app.js:3:9)''])
        = join_lines (map (\<lambda>l. ''  '' @ l) [''Error: boom'', ''    at handler (app.js:3:9)''])"
    using h pl by blast+
  then show ?thesis using h by (simp add: rt)
qed

section \<open>Properties of \<^verbatim>\<open>createContext\<close>\<close>

subsection \<open>The store\<close>

lemma length_adjust [simp]: "length (adjust n f xs) = length xs"
  by (induction n f xs rule: adjust.induct) simp_all

lemma nth_adjust:
  "i < length xs \<Longrightarrow> adjust n f xs ! i = (if i = n then f (xs ! i) else xs ! i)"
proof (induction n f xs arbitrary: i rule: adjust.induct)
  case (1 n f)
  then show ?case by simp
next
  case (2 f x xs)
  then show ?case by (cases i) simp_all
next
  case (3 n f x xs)
  then show ?case by (cases i) simp_all
qed

lemma adjust_append:
  "adjust n f (xs @ ys) =
     (if n < length xs then adjust n f xs @ ys else xs @ adjust (n - length xs) f ys)"
  by (induction n f xs rule: adjust.induct) simp_all

lemma adjust_length_append [simp]:
  "adjust (length xs) f (xs @ y # ys) = xs @ f y # ys"
  "adjust (Suc (length xs)) f (xs @ y # ys) = xs @ y # adjust 0 f ys"
  "adjust (Suc (Suc (length xs))) f (xs @ y # ys) = xs @ y # adjust (Suc 0) f ys"
  by (simp_all add: adjust_append numeral_2_eq_2)

lemma protos_below_nth:
  "protos_below b obs \<Longrightarrow> i < length obs \<Longrightarrow> proto_of (obs ! i) = Derived p \<Longrightarrow> p < b + i"
proof (induction obs arbitrary: b i)
  case Nil
  then show ?case by simp
next
  case (Cons ob obs)
  show ?case
  proof (cases i)
    case 0
    with Cons.prems show ?thesis by simp
  next
    case (Suc j)
    with Cons.prems Cons.IH [of "Suc b" j] show ?thesis by simp
  qed
qed

lemma protos_below_append:
  "protos_below b (xs @ ys) = (protos_below b xs \<and> protos_below (b + length xs) ys)"
  by (induction xs arbitrary: b) simp_all

lemma heap_wf_nth:
  "heap_wf h \<Longrightarrow> i < length h \<Longrightarrow> proto_of (h ! i) = Derived p \<Longrightarrow> p < i"
  using protos_below_nth [of 0 h i p] by (simp add: heap_wf_def)

text \<open>
  A read depends on the objects of the chain only: two stores that agree up to \<open>a\<close>,
  with links that point downwards there, give the same, defined, result at \<open>a\<close>.
\<close>

lemma lookup_chain:
  assumes "\<And>i. i \<le> a \<Longrightarrow> i < length h \<and> i < length h' \<and> h' ! i = h ! i"
    and "\<And>i p. i \<le> a \<Longrightarrow> proto_of (h ! i) = Derived p \<Longrightarrow> p < i"
    and "a < n" and "a < n'"
  shows "\<exists>v. lookup n h a k = Some v \<and> lookup n' h' a k = Some v"
  using assms
proof (induction a arbitrary: n n' rule: less_induct)
  case (less a)
  obtain m where n: "n = Suc m" using less.prems(3) by (cases n) simp_all
  obtain m' where n': "n' = Suc m'" using less.prems(4) by (cases n') simp_all
  have here: "a < length h" "a < length h'" "h' ! a = h ! a"
    using less.prems(1) [of a] by simp_all
  show ?case
  proof (cases "props (h ! a) k")
    case (Some v)
    then show ?thesis using here by (simp add: n n')
  next
    case None
    show ?thesis
    proof (cases "proto_of (h ! a)")
      case (Derived p)
      have pa: "p < a" using less.prems(2) [of a p] Derived by simp
      have "\<exists>v. lookup m h p k = Some v \<and> lookup m' h' p k = Some v"
      proof (rule less.IH [OF pa])
        fix i assume "i \<le> p"
        then show "i < length h \<and> i < length h' \<and> h' ! i = h ! i"
          using less.prems(1) [of i] pa by simp
      next
        fix i q assume "i \<le> p" "proto_of (h ! i) = Derived q"
        then show "q < i" using less.prems(2) [of i q] pa by simp
      next
        show "p < m" using pa less.prems(3) n by simp
        show "p < m'" using pa less.prems(4) n' by simp
      qed
      then obtain v where "lookup m h p k = Some v" "lookup m' h' p k = Some v" by blast
      then show ?thesis using here None Derived by (simp add: n n')
    qed (use here None in \<open>simp_all add: n n'\<close>)
  qed
qed

lemma get_prop_frame:
  assumes "heap_wf h" and "a < length h"
  shows "\<exists>v. get_prop h a k = Some v \<and> get_prop (h @ ext) a k = Some v"
  unfolding get_prop_def
proof (rule lookup_chain)
  fix i assume "i \<le> a"
  then show "i < length h \<and> i < length (h @ ext) \<and> (h @ ext) ! i = h ! i"
    using assms(2) by (simp add: nth_append)
next
  fix i p assume "i \<le> a" "proto_of (h ! i) = Derived p"
  then show "p < i" using heap_wf_nth [of h i p] assms by simp
qed (use assms(2) in simp_all)

lemma get_prop_own:
  "a < length h \<Longrightarrow> props (h ! a) k = Some v \<Longrightarrow> get_prop h a k = Some v"
  by (cases "length h") (simp_all add: get_prop_def)

lemma get_prop_put_other:
  assumes old: "\<And>i p. i < m \<Longrightarrow> proto_of (h ! i) = Derived p \<Longrightarrow> p < i"
    and "m \<le> a" and "b \<noteq> a" and "b < length h" and "m < length h"
    and bp: "\<And>p. proto_of (h ! b) = Derived p \<Longrightarrow> p < m"
  shows "get_prop (put a k v h) b k' = get_prop h b k'"
proof -
  obtain n where n: "length h = Suc n" using assms(4) by (cases "length h") simp_all
  let ?h' = "adjust a (\<lambda>ob. ob\<lparr>props := (props ob)(k \<mapsto> v)\<rparr>) h"
  have same: "?h' ! b = h ! b" using assms(3,4) by (simp add: nth_adjust)
  show ?thesis
  proof (cases "props (h ! b) k'")
    case (Some w)
    then show ?thesis using same assms(4) by (simp add: get_prop_def put_def n)
  next
    case None
    show ?thesis
    proof (cases "proto_of (h ! b)")
      case (Derived p)
      have pm: "p < m" using bp Derived by simp
      have "\<exists>w. lookup n h p k' = Some w \<and> lookup n ?h' p k' = Some w"
      proof (rule lookup_chain)
        fix i assume "i \<le> p"
        then show "i < length h \<and> i < length ?h' \<and> ?h' ! i = h ! i"
          using pm assms(2,5) by (simp add: nth_adjust)
      next
        fix i q assume "i \<le> p" "proto_of (h ! i) = Derived q"
        then show "q < i" using old [of i q] pm by simp
      next
        show "p < n" using pm assms(5) n by simp
        show "p < n" using pm assms(5) n by simp
      qed
      then have "lookup n ?h' p k' = lookup n h p k'" by auto
      then show ?thesis using same None Derived assms(4) by (simp add: get_prop_def put_def n)
    qed (use same None assms(4) in \<open>simp_all add: get_prop_def put_def n\<close>)
  qed
qed

subsection \<open>What \<^verbatim>\<open>createContext\<close> builds\<close>

lemma createContext_explicit:
  assumes "heap_wf h" and "rq < length h"
  shows "\<exists>u. get_prop h rq ''url'' = Some u \<and>
     createContext this self rq rs h =
       Inr (length h,
            h @ [context_object this self rq rs u (length h),
                 request_object this self rq rs u (length h),
                 response_object this self rq rs (length h),
                 \<lparr>proto_of = ObjectPrototype, props = Map.empty\<rparr>])"
proof -
  obtain u where u: "get_prop h rq ''url'' = Some u"
    using get_prop_frame [OF assms] by blast
  have fr: "get_prop (h @ ext) rq ''url'' = Some u" for ext
    using get_prop_frame [OF assms, of "''url''" ext] u by auto
  show ?thesis
    by (rule exI [of _ u])
       (simp add: u createContext_def object_create_def put_def fr
          context_object_def request_object_def response_object_def)
qed

lemma view_objects_fresh:
  assumes "length h = n"
  shows "view_objects
           (h @ [context_object this self rq rs u n, request_object this self rq rs u n,
                 response_object this self rq rs n, e] @ ext) n
         = {n, Suc n, Suc (Suc n)}"
  using assms
  by (auto simp: view_objects_def get_prop_own nth_append context_object_def)

text \<open>
  Claim C3: on a well-formed store and for an allocated raw request,
  \<^verbatim>\<open>createContext(req, res)\<close> does not fail. It returns a context \<open>c\<close> whose request view
  \<open>r\<close> and response view \<open>s\<close> are new objects (as is the context, and the state \<open>st\<close>:
  none of them was in the store before, they are four different objects, and the
  objects that were in the store are left as they were), derived from the
  application's three templates. The links are \<^verbatim>\<open>context.request = r\<close>,
  \<^verbatim>\<open>context.response = s\<close>, \<^verbatim>\<open>r.ctx = s.ctx = context\<close>, \<^verbatim>\<open>r.response = s\<close> and
  \<^verbatim>\<open>s.request = r\<close>; \<^verbatim>\<open>app\<close>, \<^verbatim>\<open>req\<close> and \<^verbatim>\<open>res\<close> are set on all three;
  \<^verbatim>\<open>context.originalUrl\<close> (and \<^verbatim>\<open>r.originalUrl\<close>) is the \<^verbatim>\<open>url\<close> the raw request had when the
  context was made; and \<^verbatim>\<open>context.state\<close> is a new object with no property.
\<close>

theorem createContext_links:
  assumes "heap_wf h" and "req_ref < length h"
  shows "\<exists>c r s st h'.
     createContext this self req_ref res_ref h = Inr (c, h') \<and>
     length h \<le> c \<and> length h \<le> r \<and> length h \<le> s \<and> length h \<le> st \<and>
     distinct [c, r, s, st] \<and> length h' = length h + 4 \<and> take (length h) h' = h \<and>
     proto_of (h' ! c) = Derived (context_proto this) \<and>
     proto_of (h' ! r) = Derived (request_proto this) \<and>
     proto_of (h' ! s) = Derived (response_proto this) \<and>
     get_prop h' c ''request'' = Some (Ref r) \<and>
     get_prop h' c ''response'' = Some (Ref s) \<and>
     get_prop h' r ''ctx'' = Some (Ref c) \<and>
     get_prop h' s ''ctx'' = Some (Ref c) \<and>
     get_prop h' r ''response'' = Some (Ref s) \<and>
     get_prop h' s ''request'' = Some (Ref r) \<and>
     (\<forall>x \<in> {c, r, s}.
        get_prop h' x ''app'' = Some (Ref self) \<and>
        get_prop h' x ''req'' = Some (Ref req_ref) \<and>
        get_prop h' x ''res'' = Some (Ref res_ref)) \<and>
     get_prop h' c ''originalUrl'' = get_prop h req_ref ''url'' \<and>
     get_prop h' r ''originalUrl'' = get_prop h req_ref ''url'' \<and>
     get_prop h' c ''state'' = Some (Ref st) \<and>
     h' ! st = \<lparr>proto_of = ObjectPrototype, props = Map.empty\<rparr>"
proof -
  obtain u where u: "get_prop h req_ref ''url'' = Some u"
    and cc: "createContext this self req_ref res_ref h =
       Inr (length h,
            h @ [context_object this self req_ref res_ref u (length h),
                 request_object this self req_ref res_ref u (length h),
                 response_object this self req_ref res_ref (length h),
                 \<lparr>proto_of = ObjectPrototype, props = Map.empty\<rparr>])"
    using createContext_explicit [OF assms] by blast
  show ?thesis
    apply (rule exI [of _ "length h"])
    apply (rule exI [of _ "Suc (length h)"])
    apply (rule exI [of _ "Suc (Suc (length h))"])
    apply (rule exI [of _ "Suc (Suc (Suc (length h)))"])
    apply (rule exI)
    apply (rule conjI [OF cc])
    apply (simp add: u get_prop_own nth_append
             context_object_def request_object_def response_object_def)
    done
qed

text \<open>
  Witness for C3: the first connection of the concrete store; the context is made for
  the raw request at address 7, whose \<^verbatim>\<open>url\<close> is \<^verbatim>\<open>/a\<close>.
\<close>

theorem createContext_links_witness:
  "heap_wf heap1 \<and> 7 < length heap1 \<and>
   (\<exists>c r s st h'.
     createContext app1 6 7 8 heap1 = Inr (c, h') \<and>
     length h' = 15 \<and>
     get_prop h' c ''request'' = Some (Ref r) \<and>
     get_prop h' r ''ctx'' = Some (Ref c) \<and>
     get_prop h' s ''request'' = Some (Ref r) \<and>
     get_prop h' c ''originalUrl'' = Some (Prim (JStr ''/a'')) \<and>
     get_prop h' c ''state'' = Some (Ref st) \<and>
     h' ! st = \<lparr>proto_of = ObjectPrototype, props = Map.empty\<rparr>)"
proof -
  have wf: "heap_wf heap1" by (simp add: heap_wf_def heap1_def)
  have rq: "7 < length heap1" by (simp add: heap1_def)
  have url: "get_prop heap1 7 ''url'' = Some (Prim (JStr ''/a''))"
    by (simp add: get_prop_def heap1_def)
  have len: "length heap1 = 11" by (simp add: heap1_def)
  from createContext_links [OF wf rq, of app1 6 8] show ?thesis
    using wf rq by (auto simp: url len)
qed

text \<open>
  Claim C4: two calls of \<^verbatim>\<open>createContext\<close>, for two connections of the same application,
  give two contexts that share no mutable state, though both derive from the same
  template. The objects of the first (context, request view, response view) and those
  of the second are different objects, the two
  state bags are different objects, and assigning any property, with any value, on
  any object of one context changes no property that can be read, own or inherited
  from the shared templates, on any object of the other.
\<close>

theorem createContext_isolated:
  assumes wf: "heap_wf h0"
    and tmpl: "context_proto this < length h0" "request_proto this < length h0"
              "response_proto this < length h0"
    and rq: "req1 < length h0" "req2 < length h0"
  shows "\<exists>c1 h1 c2 h2.
     createContext this self req1 res1 h0 = Inr (c1, h1) \<and>
     createContext this self req2 res2 h1 = Inr (c2, h2) \<and>
     proto_of (h2 ! c1) = Derived (context_proto this) \<and>
     proto_of (h2 ! c2) = Derived (context_proto this) \<and>
     view_objects h2 c1 \<inter> view_objects h2 c2 = {} \<and>
     get_prop h2 c1 ''state'' \<noteq> get_prop h2 c2 ''state'' \<and>
     (\<forall>a \<in> view_objects h2 c1. \<forall>b \<in> view_objects h2 c2. \<forall>k v k'.
        get_prop (put a k v h2) b k' = get_prop h2 b k' \<and>
        get_prop (put b k v h2) a k' = get_prop h2 a k')"
proof -
  define n where "n = length h0"
  obtain u1 where cc1: "createContext this self req1 res1 h0 =
       Inr (n, h0 @ [context_object this self req1 res1 u1 n,
                     request_object this self req1 res1 u1 n,
                     response_object this self req1 res1 n,
                     \<lparr>proto_of = ObjectPrototype, props = Map.empty\<rparr>])"
    using createContext_explicit [OF wf rq(1), of this self res1] unfolding n_def by blast
  define h1 where "h1 = h0 @ [context_object this self req1 res1 u1 n,
                     request_object this self req1 res1 u1 n,
                     response_object this self req1 res1 n,
                     \<lparr>proto_of = ObjectPrototype, props = Map.empty\<rparr>]"
  have len1: "length h1 = n + 4" by (simp add: h1_def n_def)
  have wf1: "heap_wf h1"
    using wf tmpl
    by (simp add: heap_wf_def h1_def protos_below_append n_def
          context_object_def request_object_def response_object_def)
  have rq2: "req2 < length h1" using rq(2) by (simp add: len1 n_def)
  obtain u2 where cc2: "createContext this self req2 res2 h1 =
       Inr (n + 4, h1 @ [context_object this self req2 res2 u2 (n + 4),
                     request_object this self req2 res2 u2 (n + 4),
                     response_object this self req2 res2 (n + 4),
                     \<lparr>proto_of = ObjectPrototype, props = Map.empty\<rparr>])"
    using createContext_explicit [OF wf1 rq2, of this self res2] unfolding len1 by blast
  define h2 where "h2 = h1 @ [context_object this self req2 res2 u2 (n + 4),
                     request_object this self req2 res2 u2 (n + 4),
                     response_object this self req2 res2 (n + 4),
                     \<lparr>proto_of = ObjectPrototype, props = Map.empty\<rparr>]"
  have len2: "length h2 = n + 8" by (simp add: h2_def len1)
  have wf2: "heap_wf h2"
    using wf1 tmpl
    by (simp add: heap_wf_def h2_def protos_below_append len1 n_def
          context_object_def request_object_def response_object_def)
  have v1: "view_objects h2 n = {n, Suc n, Suc (Suc n)}"
    unfolding h2_def h1_def append_assoc
    using view_objects_fresh [of h0 n this self req1 res1 u1] by (simp add: n_def)
  have v2: "view_objects h2 (n + 4) = {n + 4, Suc (n + 4), Suc (Suc (n + 4))}"
    unfolding h2_def
    using view_objects_fresh [of h1 "n + 4" this self req2 res2 u2 _ "[]"] by (simp add: len1)
  have st: "get_prop h2 n ''state'' \<noteq> get_prop h2 (n + 4) ''state''"
    by (simp add: get_prop_own len2 h2_def h1_def nth_append n_def context_object_def)
  have old: "\<And>i p. i < n \<Longrightarrow> proto_of (h2 ! i) = Derived p \<Longrightarrow> p < i"
    using heap_wf_nth [OF wf2] by (simp add: len2)
  have pr: "\<And>b p. b \<in> {n, Suc n, Suc (Suc n), n + 4, Suc (n + 4), Suc (Suc (n + 4))} \<Longrightarrow>
              proto_of (h2 ! b) = Derived p \<Longrightarrow> p < n"
    using tmpl
    by (auto simp: h2_def h1_def nth_append n_def
          context_object_def request_object_def response_object_def)
  have iso: "get_prop (put a k v h2) b k' = get_prop h2 b k'"
    if "a \<in> {n, Suc n, Suc (Suc n), n + 4, Suc (n + 4), Suc (Suc (n + 4))}"
      and "b \<in> {n, Suc n, Suc (Suc n), n + 4, Suc (n + 4), Suc (Suc (n + 4))}"
      and "b \<noteq> a" for a b k v k'
  proof (rule get_prop_put_other [where m = n])
    show "\<And>i p. i < n \<Longrightarrow> proto_of (h2 ! i) = Derived p \<Longrightarrow> p < i" by (rule old)
    show "n \<le> a" using that(1) by auto
    show "b \<noteq> a" by (rule that(3))
    show "b < length h2" using that(2) by (auto simp: len2)
    show "n < length h2" by (simp add: len2)
    show "\<And>p. proto_of (h2 ! b) = Derived p \<Longrightarrow> p < n" using pr [OF that(2)] .
  qed
  show ?thesis
    apply (rule exI [of _ n], rule exI [of _ h1], rule exI [of _ "n + 4"], rule exI [of _ h2])
    apply (intro conjI)
          apply (simp add: cc1 h1_def)
         apply (simp add: cc2 h2_def)
        apply (simp add: h2_def h1_def nth_append n_def context_object_def)
       apply (simp add: h2_def len1 nth_append context_object_def)
      apply (simp add: v1 v2)
     apply (rule st)
    apply (simp only: v1 v2)
    apply (intro ballI allI conjI)
     apply (rule iso; auto)
    apply (rule iso; auto)
    done
qed

text \<open>
  Witness for C4: the two connections of the concrete store, with the raw requests at
  the addresses 7 and 9.
\<close>

theorem createContext_isolated_witness:
  "heap_wf heap1 \<and> context_proto app1 < length heap1 \<and> request_proto app1 < length heap1 \<and>
   response_proto app1 < length heap1 \<and> 7 < length heap1 \<and> 9 < length heap1 \<and>
   (\<exists>c1 h1 c2 h2.
     createContext app1 6 7 8 heap1 = Inr (c1, h1) \<and>
     createContext app1 6 9 10 h1 = Inr (c2, h2) \<and>
     proto_of (h2 ! c1) = Derived 3 \<and> proto_of (h2 ! c2) = Derived 3 \<and>
     view_objects h2 c1 \<inter> view_objects h2 c2 = {} \<and>
     get_prop h2 c1 ''state'' \<noteq> get_prop h2 c2 ''state'' \<and>
     (\<forall>a \<in> view_objects h2 c1. \<forall>b \<in> view_objects h2 c2. \<forall>k v k'.
        get_prop (put a k v h2) b k' = get_prop h2 b k' \<and>
        get_prop (put b k v h2) a k' = get_prop h2 a k'))"
proof -
  have wf: "heap_wf heap1" by (simp add: heap_wf_def heap1_def)
  have t: "context_proto app1 < length heap1" "request_proto app1 < length heap1"
    "response_proto app1 < length heap1"
    by (simp_all add: heap1_def app1_def)
  have rq: "7 < length heap1" "9 < length heap1" by (simp_all add: heap1_def)
  from createContext_isolated [OF wf t rq, of 6 8 10] show ?thesis
    using wf t rq by (simp add: app1_def)
qed

end
